theory Spec2Isabelle
  imports Main
begin

section \<open>JavaScript string helpers\<close>

text \<open>
  Strings are modelled as \<open>string\<close> (lists of 8-bit characters), so the model covers
  ASCII text: \<open>toLowerCase\<close> maps \<open>A\<close>..\<open>Z\<close> to \<open>a\<close>..\<open>z\<close> and leaves every other
  character alone, and \<open>trim\<close> strips the ASCII white space characters (tab, line feed,
  vertical tab, form feed, carriage return, space) from both ends.
\<close>

definition lower_char :: "char \<Rightarrow> char" where
  "lower_char c =
     (let n = (of_char c :: nat) in if 65 \<le> n \<and> n \<le> 90 then char_of (n + 32) else c)"

definition toLowerCase :: "string \<Rightarrow> string" where
  "toLowerCase s = map lower_char s"

definition is_ws :: "char \<Rightarrow> bool" where
  "is_ws c = (let n = (of_char c :: nat) in (9 \<le> n \<and> n \<le> 13) \<or> n = 32)"

definition trim :: "string \<Rightarrow> string" where
  "trim s = rev (dropWhile is_ws (rev (dropWhile is_ws s)))"

text \<open>\<^verbatim>\<open>email.split('@')[0]\<close>: the part before the first \<open>@\<close> (the whole string when there is none).\<close>

definition split_at_0 :: "string \<Rightarrow> string" where
  "split_at_0 s = takeWhile (\<lambda>c. c \<noteq> CHR ''@'') s"

text \<open>Decimal rendering of a number inside a template string.\<close>

definition digit_char :: "nat \<Rightarrow> char" where
  "digit_char d = ''0123456789'' ! d"

fun show_nat :: "nat \<Rightarrow> string" where
  "show_nat n =
     (if n < 10 then [digit_char n] else show_nat (n div 10) @ [digit_char (n mod 10)])"

declare show_nat.simps [simp del]

definition show_int :: "int \<Rightarrow> string" where
  "show_int i = (if i < 0 then CHR ''-'' # show_nat (nat (- i)) else show_nat (nat i))"

section \<open>OTP service (otpService.js)\<close>

text \<open>
  The object passed to \<open>User.create\<close>, which is also the pending user data kept with a
  signup OTP: \<open>{ email, password, name, googleId }\<close>, the last three optional.
\<close>

record user_data =
  ud_email :: string
  ud_password :: "string option"
  ud_name :: "string option"
  ud_googleId :: "string option"

text \<open>
  An entry of \<open>otpStore\<close> or \<open>signupOtpStore\<close>. The JavaScript objects carry \<open>userData\<close>
  only in the signup store and \<open>verified\<close> only after a successful reset verification; an
  absent \<open>userData\<close> is \<open>None\<close> and an absent (falsy) \<open>verified\<close> is \<open>False\<close>.
  \<open>expiryTime\<close> is in milliseconds, as \<open>Date.now()\<close>.
\<close>

record otp_entry =
  otp :: string
  userData :: "user_data option"
  expiryTime :: int
  attempts :: nat
  verified :: bool

type_synonym otp_map = "string \<rightharpoonup> otp_entry"

text \<open>The result object \<open>{ success, message, userData }\<close> of the verification functions.\<close>

datatype otp_result = OtpResult (r_success: bool) (r_message: string) (r_userData: "user_data option")

text \<open>
  \<open>generateOTP\<close>: \<open>Math.floor(100000 + Math.random() * 900000).toString()\<close>; the argument
  \<open>r\<close> stands for \<open>Math.floor(Math.random() * 900000)\<close>.
\<close>

definition generateOTP :: "nat \<Rightarrow> string" where
  "generateOTP r = show_nat (100000 + r)"

definition storeOTP :: "int \<Rightarrow> otp_map \<Rightarrow> string \<Rightarrow> string \<Rightarrow> int \<Rightarrow> otp_map" where
  "storeOTP now otpStore email code expiryMinutes =
     (let expiry = now + expiryMinutes * 60 * 1000 in
      otpStore(toLowerCase email \<mapsto>
        \<lparr>otp = code, userData = None, expiryTime = expiry, attempts = 0, verified = False\<rparr>))"

definition storeSignupOTP ::
  "int \<Rightarrow> otp_map \<Rightarrow> string \<Rightarrow> string \<Rightarrow> user_data \<Rightarrow> int \<Rightarrow> otp_map" where
  "storeSignupOTP now signupOtpStore email code ud expiryMinutes =
     (let expiry = now + expiryMinutes * 60 * 1000 in
      signupOtpStore(toLowerCase email \<mapsto>
        \<lparr>otp = code, userData = Some ud, expiryTime = expiry, attempts = 0, verified = False\<rparr>))"

definition verifyOTP :: "int \<Rightarrow> otp_map \<Rightarrow> string \<Rightarrow> string \<Rightarrow> otp_result \<times> otp_map" where
  "verifyOTP now otpStore email code =
     (let emailKey = toLowerCase email in
      case otpStore emailKey of
        None \<Rightarrow> (OtpResult False ''No OTP found. Please request a new one.'' None, otpStore)
      | Some stored \<Rightarrow>
          if now > expiryTime stored then
            (OtpResult False ''OTP has expired. Please request a new one.'' None,
             otpStore(emailKey := None))
          else if attempts stored \<ge> 5 then
            (OtpResult False ''Too many failed attempts. Please request a new OTP.'' None,
             otpStore(emailKey := None))
          else if otp stored = code then
            (OtpResult True ''OTP verified successfully'' None,
             otpStore(emailKey \<mapsto> stored\<lparr>verified := True\<rparr>))
          else
            (let stored' = stored\<lparr>attempts := attempts stored + 1\<rparr>;
                 remainingAttempts = 5 - int (attempts stored')
             in (OtpResult False
                   (''Invalid OTP. '' @ show_int remainingAttempts @ '' attempts remaining.'') None,
                 otpStore(emailKey \<mapsto> stored'))))"

definition verifySignupOTP :: "int \<Rightarrow> otp_map \<Rightarrow> string \<Rightarrow> string \<Rightarrow> otp_result \<times> otp_map" where
  "verifySignupOTP now signupOtpStore email code =
     (let emailKey = toLowerCase email in
      case signupOtpStore emailKey of
        None \<Rightarrow> (OtpResult False ''No OTP found. Please request a new one.'' None, signupOtpStore)
      | Some stored \<Rightarrow>
          if now > expiryTime stored then
            (OtpResult False ''OTP has expired. Please request a new one.'' None,
             signupOtpStore(emailKey := None))
          else if attempts stored \<ge> 5 then
            (OtpResult False ''Too many failed attempts. Please request a new OTP.'' None,
             signupOtpStore(emailKey := None))
          else if otp stored = code then
            (OtpResult True ''OTP verified successfully'' (userData stored), signupOtpStore)
          else
            (let stored' = stored\<lparr>attempts := attempts stored + 1\<rparr>;
                 remainingAttempts = 5 - int (attempts stored')
             in (OtpResult False
                   (''Invalid OTP. '' @ show_int remainingAttempts @ '' attempts remaining.'') None,
                 signupOtpStore(emailKey \<mapsto> stored'))))"

definition isOTPVerified :: "int \<Rightarrow> otp_map \<Rightarrow> string \<Rightarrow> bool" where
  "isOTPVerified now otpStore email =
     (case otpStore (toLowerCase email) of
        None \<Rightarrow> False
      | Some stored \<Rightarrow> verified stored \<and> now \<le> expiryTime stored)"

definition clearOTP :: "otp_map \<Rightarrow> string \<Rightarrow> otp_map" where
  "clearOTP otpStore email = otpStore(toLowerCase email := None)"

definition clearSignupOTP :: "otp_map \<Rightarrow> string \<Rightarrow> otp_map" where
  "clearSignupOTP signupOtpStore email = signupOtpStore(toLowerCase email := None)"

section \<open>Credential store (models/User.js over the \<open>users\<close> table of schema.sql)\<close>

text \<open>
  A row of the \<open>users\<close> table. The UUID primary key is modelled as a natural number.
  \<open>password\<close> and \<open>google_id\<close> are nullable; \<open>email\<close> and \<open>google_id\<close> are \<open>UNIQUE\<close>.
  The timestamps and the column length limits of the schema are not modelled.
\<close>

record user =
  u_id :: nat
  u_email :: string
  u_password :: "string option"
  u_name :: string
  u_google_id :: "string option"

text \<open>
  Errors reported by the data store, and the JavaScript \<open>Error\<close> objects thrown by the
  model functions. \<open>new Error(msg)\<close> has no \<open>code\<close> property, so \<open>err_code\<close> is \<open>None\<close>
  there. The message texts of the store are external; only their place in the wrapped
  message matters here.
\<close>

datatype db_error = UniqueViolation string | NoSingleRow

definition db_message :: "db_error \<Rightarrow> string" where
  "db_message e =
     (case e of
        UniqueViolation c \<Rightarrow> ''duplicate key value violates unique constraint '' @ c
      | NoSingleRow \<Rightarrow> ''JSON object requested, multiple (or no) rows returned'')"

datatype js_error = Error (err_code: "nat option") (err_message: string)

text \<open>
  \<open>.single()\<close>: the row when the query yields exactly one; otherwise the store reports
  \<open>PGRST116\<close>, which the finders ignore and return \<open>null\<close>.
\<close>

definition single :: "'a list \<Rightarrow> 'a option" where
  "single rows = (case rows of [r] \<Rightarrow> Some r | _ \<Rightarrow> None)"

definition findById :: "user list \<Rightarrow> nat \<Rightarrow> user option" where
  "findById users i = single (filter (\<lambda>u. u_id u = i) users)"

definition findByEmail :: "user list \<Rightarrow> string \<Rightarrow> user option" where
  "findByEmail users email = single (filter (\<lambda>u. u_email u = trim (toLowerCase email)) users)"

definition findByGoogleId :: "user list \<Rightarrow> string \<Rightarrow> user option" where
  "findByGoogleId users googleId = single (filter (\<lambda>u. u_google_id u = Some googleId) users)"

text \<open>The key the store gives a new row: one that no existing row has.\<close>

definition fresh_id :: "user list \<Rightarrow> nat" where
  "fresh_id users = Suc (foldr max (map u_id users) 0)"

text \<open>\<open>INSERT\<close> into \<open>users\<close>, with the two \<open>UNIQUE\<close> constraints of the schema.\<close>

definition db_insert ::
  "user list \<Rightarrow> string \<Rightarrow> string option \<Rightarrow> string \<Rightarrow> string option \<Rightarrow> db_error + (user \<times> user list)" where
  "db_insert users e p n g =
     (if e \<in> set (map u_email users) then Inl (UniqueViolation ''users_email_key'')
      else if g \<noteq> None \<and> g \<in> set (map u_google_id users)
        then Inl (UniqueViolation ''users_google_id_key'')
      else
        (let row = \<lparr>u_id = fresh_id users, u_email = e, u_password = p, u_name = n,
                     u_google_id = g\<rparr>
         in Inr (row, users @ [row])))"

text \<open>
  \<open>User.create\<close>. \<open>bhash\<close> is \<open>bcrypt.hash\<close> and \<open>salt\<close> the value of
  \<open>bcrypt.genSalt(10)\<close>; a present, non-empty \<open>password\<close> is always hashed.
\<close>

definition User_create ::
  "(string \<Rightarrow> string \<Rightarrow> string) \<Rightarrow> string \<Rightarrow> user list \<Rightarrow> user_data \<Rightarrow> js_error + (user \<times> user list)" where
  "User_create bhash salt users ud =
     (let hashedPassword =
            (case ud_password ud of
               None \<Rightarrow> None
             | Some p \<Rightarrow> if p = [] then None else Some (bhash p salt));
          nm = (case ud_name ud of
                  None \<Rightarrow> split_at_0 (ud_email ud)
                | Some n \<Rightarrow> if trim n = [] then split_at_0 (ud_email ud) else trim n);
          gid = (case ud_googleId ud of
                   None \<Rightarrow> None
                 | Some g \<Rightarrow> if g = [] then None else Some g)
      in case db_insert users (trim (toLowerCase (ud_email ud))) hashedPassword nm gid of
           Inl e \<Rightarrow> Inl (Error None (''Failed to create user: '' @ db_message e))
         | Inr r \<Rightarrow> Inr r)"

text \<open>\<open>User.toJSON\<close>: the user object without its password.\<close>

definition toJSON :: "user \<Rightarrow> user" where
  "toJSON u = u\<lparr>u_password := None\<rparr>"

text \<open>
  \<open>User.verifyPassword\<close>; \<open>bcompare\<close> is \<open>bcrypt.compare\<close>. The user is returned
  without its password.
\<close>

definition verifyPassword ::
  "(string \<Rightarrow> string \<Rightarrow> bool) \<Rightarrow> user list \<Rightarrow> string \<Rightarrow> string \<Rightarrow> user option" where
  "verifyPassword bcompare users email pw =
     (case single (filter (\<lambda>u. u_email u = trim (toLowerCase email)) users) of
        None \<Rightarrow> None
      | Some u \<Rightarrow>
          (case u_password u of
             None \<Rightarrow> None
           | Some h \<Rightarrow>
               if h = [] then None
               else if bcompare pw h then Some (u\<lparr>u_password := None\<rparr>)
               else None))"

text \<open>The \<open>updates\<close> object of \<open>User.update\<close>: the columns to set, each optional.\<close>

record user_updates =
  up_password :: "string option"
  up_google_id :: "string option"

definition apply_updates :: "user_updates \<Rightarrow> user \<Rightarrow> user" where
  "apply_updates ups u =
     u\<lparr>u_password := (case up_password ups of None \<Rightarrow> u_password u | Some p \<Rightarrow> Some p),
        u_google_id := (case up_google_id ups of None \<Rightarrow> u_google_id u | Some g \<Rightarrow> Some g)\<rparr>"

text \<open>
  \<open>User.update\<close>: a non-empty new password is hashed first; the row with the given key is
  updated and returned. The store refuses a \<open>google_id\<close> that another row has, and
  \<open>.single()\<close> fails unless exactly one row has the key (\<open>id\<close> is the primary key).
\<close>

definition User_update ::
  "(string \<Rightarrow> string \<Rightarrow> string) \<Rightarrow> string \<Rightarrow> user list \<Rightarrow> nat \<Rightarrow> user_updates
     \<Rightarrow> js_error + (user \<times> user list)" where
  "User_update bhash salt users i updates =
     (let ups = (case up_password updates of
                   None \<Rightarrow> updates
                 | Some p \<Rightarrow> if p = [] then updates
                            else updates\<lparr>up_password := Some (bhash p salt)\<rparr>)
      in if (case up_google_id ups of
               None \<Rightarrow> False
             | Some g \<Rightarrow> Some g \<in> set (map u_google_id (filter (\<lambda>u. u_id u \<noteq> i) users)))
         then Inl (Error None (''Failed to update user: ''
                     @ db_message (UniqueViolation ''users_google_id_key'')))
         else
           (case filter (\<lambda>u. u_id u = i) users of
              [t] \<Rightarrow> Inr (apply_updates ups t,
                          map (\<lambda>u. if u_id u = i then apply_updates ups u else u) users)
            | _ \<Rightarrow> Inl (Error None (''Failed to update user: '' @ db_message NoSingleRow))))"

definition User_updatePassword ::
  "(string \<Rightarrow> string \<Rightarrow> string) \<Rightarrow> string \<Rightarrow> user list \<Rightarrow> nat \<Rightarrow> string
     \<Rightarrow> js_error + (user \<times> user list)" where
  "User_updatePassword bhash salt users i newPassword =
     User_update bhash salt users i \<lparr>up_password = Some newPassword, up_google_id = None\<rparr>"

section \<open>Token manager (tokenManager.js)\<close>

text \<open>A signed token is represented by the payload \<open>{ userId, email }\<close> it carries.\<close>

datatype jwt = Jwt (jwt_userId: nat) (jwt_email: string)

definition generateToken :: "nat \<Rightarrow> string \<Rightarrow> jwt" where
  "generateToken userId email = Jwt userId email"

section \<open>Authentication controller (authController.js)\<close>

text \<open>
  The process state: the \<open>users\<close> table and the two in-memory OTP stores. A handler takes
  the state and the request body and returns the JSON response with the new state.
  A field missing from the body is falsy like the empty string and is represented by it;
  the optional \<open>name\<close> is an option. What the environment decides is an argument:
  \<open>now\<close> is \<open>Date.now()\<close>, \<open>salt\<close> the generated salt, \<open>r\<close> the random draw of
  \<open>generateOTP\<close>, and \<open>mail_ok\<close> tells whether the mail service delivered (it throws
  otherwise). The handlers are modelled as the controller defines them; the validation
  middleware that the router puts in front of \<open>signup\<close> and \<open>login\<close> is not part of them.
\<close>

record state =
  users :: "user list"
  otpStore :: otp_map
  signupOtpStore :: otp_map

record response =
  status :: nat
  success :: bool
  message :: string
  warning :: "string option"
  data :: "(user \<times> jwt) option"
  error :: "string option"

definition json :: "nat \<Rightarrow> bool \<Rightarrow> string \<Rightarrow> response" where
  "json st ok msg =
     \<lparr>status = st, success = ok, message = msg, warning = None, data = None, error = None\<rparr>"

definition signup ::
  "(string \<Rightarrow> string \<Rightarrow> string) \<Rightarrow> string \<Rightarrow> state \<Rightarrow> string \<Rightarrow> string \<Rightarrow> string option
     \<Rightarrow> response \<times> state" where
  "signup bhash salt s email pw nm =
     (case findByEmail (users s) email of
        Some existingUser \<Rightarrow> (json 409 False ''User with this email already exists'', s)
      | None \<Rightarrow>
          (case User_create bhash salt (users s)
                  \<lparr>ud_email = trim (toLowerCase email), ud_password = Some pw,
                   ud_name = map_option trim nm, ud_googleId = None\<rparr> of
             Inr (u, users') \<Rightarrow>
               ((json 201 True ''User registered successfully'')
                  \<lparr>data := Some (toJSON u, generateToken (u_id u) (u_email u))\<rparr>,
                s\<lparr>users := users'\<rparr>)
           | Inl e \<Rightarrow>
               if err_code e = Some 11000
               then (json 409 False ''User with this email already exists'', s)
               else ((json 500 False ''Failed to register user'')\<lparr>error := Some (err_message e)\<rparr>,
                     s)))"

definition requestSignupOTP ::
  "(string \<Rightarrow> string \<Rightarrow> string) \<Rightarrow> int \<Rightarrow> string \<Rightarrow> nat \<Rightarrow> bool \<Rightarrow> state
     \<Rightarrow> string \<Rightarrow> string \<Rightarrow> string option \<Rightarrow> response \<times> state" where
  "requestSignupOTP bhash now salt r mail_ok s email pw nm =
     (if email = [] \<or> pw = [] then (json 400 False ''Email and password are required'', s)
      else
        (case findByEmail (users s) (trim (toLowerCase email)) of
           Some existingUser \<Rightarrow> (json 409 False ''User with this email already exists'', s)
         | None \<Rightarrow>
             (let hashedPassword = bhash pw salt;
                  code = generateOTP r;
                  s' = s\<lparr>signupOtpStore :=
                         storeSignupOTP now (signupOtpStore s) email code
                           \<lparr>ud_email = trim (toLowerCase email),
                            ud_password = Some hashedPassword,
                            ud_name = Some (case nm of
                                              None \<Rightarrow> split_at_0 email
                                            | Some n \<Rightarrow> if trim n = [] then split_at_0 email
                                                        else trim n),
                            ud_googleId = None\<rparr> 10\<rparr>
              in if mail_ok then
                   (json 200 True
                      ''Verification code has been sent to your email address. Please check your inbox.'',
                    s')
                 else
                   ((json 200 True
                       ''Verification code generated. Note: Email service is currently unavailable. Please check server logs for your verification code or contact support.'')
                      \<lparr>warning := Some ''Email delivery failed - check server logs''\<rparr>,
                    s'))))"

definition verifySignupOTP_ctrl ::
  "(string \<Rightarrow> string \<Rightarrow> string) \<Rightarrow> int \<Rightarrow> string \<Rightarrow> state \<Rightarrow> string \<Rightarrow> string
     \<Rightarrow> response \<times> state" where
  "verifySignupOTP_ctrl bhash now salt s email code =
     (if email = [] \<or> code = [] then (json 400 False ''Email and OTP are required'', s)
      else
        (let (result, store') = verifySignupOTP now (signupOtpStore s) (trim (toLowerCase email)) code;
             s1 = s\<lparr>signupOtpStore := store'\<rparr>
         in if \<not> r_success result then (json 400 False (r_message result), s1)
            else
              (case (case r_userData result of
                       None \<Rightarrow> Inl (Error None ''TypeError'')
                     | Some ud \<Rightarrow> User_create bhash salt (users s1) ud) of
                 Inr (u, users') \<Rightarrow>
                   ((json 201 True ''Account created successfully'')
                      \<lparr>data := Some (toJSON u, generateToken (u_id u) (u_email u))\<rparr>,
                    s1\<lparr>users := users',
                       signupOtpStore := clearSignupOTP (signupOtpStore s1) email\<rparr>)
               | Inl createError \<Rightarrow>
                   if err_code createError = Some 11000
                   then (json 409 False ''User with this email already exists'', s1)
                   else (json 500 False ''Failed to create account. Please try again.'', s1))))"

definition login ::
  "(string \<Rightarrow> string \<Rightarrow> bool) \<Rightarrow> state \<Rightarrow> string \<Rightarrow> string \<Rightarrow> response \<times> state" where
  "login bcompare s email pw =
     (case verifyPassword bcompare (users s) (trim (toLowerCase email)) pw of
        None \<Rightarrow> (json 401 False ''Invalid email or password'', s)
      | Some u \<Rightarrow>
          ((json 200 True ''Login successful'')
             \<lparr>data := Some (toJSON u, generateToken (u_id u) (u_email u))\<rparr>,
           s))"

definition forgotPassword ::
  "int \<Rightarrow> nat \<Rightarrow> bool \<Rightarrow> state \<Rightarrow> string \<Rightarrow> response \<times> state" where
  "forgotPassword now r mail_ok s email =
     (if email = [] then (json 400 False ''Email is required'', s)
      else
        (case findByEmail (users s) (trim (toLowerCase email)) of
           None \<Rightarrow>
             (json 200 True ''If an account exists with this email, you will receive an OTP shortly.'',
              s)
         | Some u \<Rightarrow>
             (let code = generateOTP r;
                  s' = s\<lparr>otpStore := storeOTP now (otpStore s) email code 10\<rparr>
              in if mail_ok then
                   (json 200 True ''OTP has been sent to your email address. Please check your inbox.'',
                    s')
                 else
                   ((json 200 True
                       ''OTP generated. Note: Email service is currently unavailable. Please check server logs for your OTP or contact support.'')
                      \<lparr>warning := Some ''Email delivery failed - check server logs''\<rparr>,
                    s'))))"

definition verifyOTP_ctrl :: "int \<Rightarrow> state \<Rightarrow> string \<Rightarrow> string \<Rightarrow> response \<times> state" where
  "verifyOTP_ctrl now s email code =
     (if email = [] \<or> code = [] then (json 400 False ''Email and OTP are required'', s)
      else
        (let (result, store') = verifyOTP now (otpStore s) (trim (toLowerCase email)) code;
             s' = s\<lparr>otpStore := store'\<rparr>
         in if r_success result then (json 200 True (r_message result), s')
            else (json 400 False (r_message result), s')))"

definition resetPassword ::
  "(string \<Rightarrow> string \<Rightarrow> string) \<Rightarrow> int \<Rightarrow> string \<Rightarrow> state \<Rightarrow> string \<Rightarrow> string
     \<Rightarrow> response \<times> state" where
  "resetPassword bhash now salt s email newPassword =
     (if email = [] \<or> newPassword = []
        then (json 400 False ''Email and new password are required'', s)
      else if \<not> isOTPVerified now (otpStore s) (trim (toLowerCase email))
        then (json 403 False ''Please verify OTP before resetting password'', s)
      else
        (case findByEmail (users s) (trim (toLowerCase email)) of
           None \<Rightarrow> (json 404 False ''User not found'', s)
         | Some u \<Rightarrow>
             (case User_updatePassword bhash salt (users s) (u_id u) newPassword of
                Inl e \<Rightarrow> (json 500 False ''An error occurred while resetting password'', s)
              | Inr (u', users') \<Rightarrow>
                  (json 200 True
                     ''Password has been reset successfully. You can now login with your new password.'',
                   s\<lparr>users := users', otpStore := clearOTP (otpStore s) email\<rparr>))))"

section \<open>Google strategy verify callback (server.js)\<close>

text \<open>
  The profile handed over by the identity provider; \<open>p_emails\<close> lists the \<open>value\<close>s of
  \<open>profile.emails\<close>. The callback reports \<open>done(error, null)\<close> as \<open>Inl\<close> and
  \<open>done(null, user)\<close> as \<open>Inr\<close>, with the users table as it is afterwards.
\<close>

record profile =
  p_id :: string
  p_emails :: "string list"
  p_displayName :: "string option"

definition google_verify ::
  "(string \<Rightarrow> string \<Rightarrow> string) \<Rightarrow> string \<Rightarrow> user list \<Rightarrow> profile
     \<Rightarrow> js_error + (user option \<times> user list)" where
  "google_verify bhash salt us prof =
     (case findByGoogleId us (p_id prof) of
        Some u \<Rightarrow> Inr (Some u, us)
      | None \<Rightarrow>
          (case p_emails prof of
             [] \<Rightarrow> Inl (Error None ''TypeError'')
           | email # rest \<Rightarrow>
               (case findByEmail us email of
                  Some u \<Rightarrow>
                    (case User_update bhash salt us (u_id u)
                            \<lparr>up_password = None, up_google_id = Some (p_id prof)\<rparr> of
                       Inl e \<Rightarrow> Inl e
                     | Inr (u', us') \<Rightarrow> Inr (findById us' (u_id u), us'))
                | None \<Rightarrow>
                    (case User_create bhash salt us
                            \<lparr>ud_email = email, ud_password = None,
                             ud_name = p_displayName prof, ud_googleId = Some (p_id prof)\<rparr> of
                       Inl e \<Rightarrow> Inl e
                     | Inr (u, us') \<Rightarrow> Inr (Some u, us')))))"

text \<open>
  The invariant the data store maintains on the \<open>users\<close> table: \<open>id\<close> is the primary
  key, \<open>email\<close> is unique, and \<open>google_id\<close> is unique among the rows that have one.
\<close>

definition db_ok :: "user list \<Rightarrow> bool" where
  "db_ok us \<longleftrightarrow>
     distinct (map u_id us) \<and> distinct (map u_email us)
     \<and> distinct (filter (\<lambda>g. g \<noteq> None) (map u_google_id us))"

section \<open>Properties of the string helpers\<close>

lemma lower_char_idem: "lower_char (lower_char c) = lower_char c"
  by (simp add: lower_char_def Let_def)

lemma is_ws_lower: "is_ws (lower_char c) = is_ws c"
  by (auto simp add: lower_char_def is_ws_def Let_def)

lemma toLowerCase_idem: "toLowerCase (toLowerCase s) = toLowerCase s"
  by (simp add: toLowerCase_def lower_char_idem)

lemma trim_toLowerCase: "trim (toLowerCase s) = toLowerCase (trim s)"
  by (simp add: trim_def toLowerCase_def dropWhile_map rev_map comp_def is_ws_lower)

lemma show_nat_nonempty: "show_nat n \<noteq> []"
  by (subst show_nat.simps) simp

lemma generateOTP_nonempty: "generateOTP r \<noteq> []"
  by (simp add: generateOTP_def show_nat_nonempty)

lemma canonical_lower: "toLowerCase (trim (toLowerCase e)) = trim (toLowerCase e)"
  by (simp add: trim_toLowerCase [symmetric] toLowerCase_idem)

lemma dropWhile_no_head: "xs = [] \<or> \<not> P (hd xs) \<Longrightarrow> dropWhile P xs = xs"
  by (cases xs) auto

lemma rev_dropWhile_rev_head:
  "xs = [] \<or> \<not> P (hd xs) \<Longrightarrow>
     rev (dropWhile P (rev xs)) = [] \<or> \<not> P (hd (rev (dropWhile P (rev xs))))"
proof (induction xs rule: rev_induct)
  case Nil
  then show ?case by simp
next
  case (snoc x xs)
  then show ?case
    by (cases xs) (auto split: if_splits)
qed

lemma trim_idem: "trim (trim s) = trim s"
proof -
  let ?a = "dropWhile is_ws s"
  let ?b = "rev (dropWhile is_ws (rev ?a))"
  have a: "?a = [] \<or> \<not> is_ws (hd ?a)"
    by (metis hd_dropWhile)
  have b: "?b = [] \<or> \<not> is_ws (hd ?b)"
    using a by (rule rev_dropWhile_rev_head)
  have "dropWhile is_ws ?b = ?b"
    using b by (rule dropWhile_no_head)
  moreover have "dropWhile is_ws (rev ?b) = rev ?b"
    by simp
  ultimately show ?thesis
    by (simp add: trim_def)
qed

lemma canonical_idem: "trim (toLowerCase (trim (toLowerCase e))) = trim (toLowerCase e)"
  by (simp add: trim_toLowerCase toLowerCase_idem trim_idem)

section \<open>Properties of the credential store\<close>

lemma User_create_err_code: "User_create bhash salt us ud = Inl e \<Longrightarrow> err_code e = None"
  by (auto simp add: User_create_def Let_def split: sum.splits)

lemma filter_absent: "e \<notin> set (map f us) \<Longrightarrow> filter (\<lambda>u. f u = e) us = []"
  by (induction us) auto

lemma single_filter_mem: "single (filter P xs) = Some x \<Longrightarrow> x \<in> set xs \<and> P x"
proof -
  assume a: "single (filter P xs) = Some x"
  then have "filter P xs = [x]"
    by (auto simp add: single_def split: list.splits)
  then have "x \<in> set (filter P xs)" by simp
  then show ?thesis by simp
qed

lemma filter_key_distinct:
  "distinct (map f xs) \<Longrightarrow> x \<in> set xs \<Longrightarrow> filter (\<lambda>y. f y = f x) xs = [x]"
proof (induction xs)
  case Nil
  then show ?case by simp
next
  case (Cons a xs)
  show ?case
  proof (cases "a = x")
    case True
    have "f x \<notin> set (map f xs)" using Cons.prems(1) True by simp
    then have "filter (\<lambda>y. f y = f x) xs = []" by (rule filter_absent)
    then show ?thesis using True by simp
  next
    case False
    then have m: "x \<in> set xs" using Cons.prems(2) by simp
    then have "f a \<noteq> f x" using Cons.prems(1) by auto
    then show ?thesis using Cons.IH Cons.prems(1) m by simp
  qed
qed

lemma findByEmail_mem: "findByEmail us e = Some u \<Longrightarrow> u \<in> set us"
  by (auto simp add: findByEmail_def dest: single_filter_mem)

lemma filter_key_distinct_on:
  "distinct (filter Q (map f xs)) \<Longrightarrow> x \<in> set xs \<Longrightarrow> Q (f x) \<Longrightarrow>
     filter (\<lambda>y. f y = f x) xs = [x]"
proof (induction xs)
  case Nil
  then show ?case by simp
next
  case (Cons a xs)
  show ?case
  proof (cases "a = x")
    case True
    have "f x \<notin> set (filter Q (map f xs))" using Cons.prems(1,3) True by simp
    then have "f x \<notin> set (map f xs)" using Cons.prems(3) by simp
    then have "filter (\<lambda>y. f y = f x) xs = []" by (rule filter_absent)
    then show ?thesis using True by simp
  next
    case False
    then have m: "x \<in> set xs" using Cons.prems(2) by simp
    have d: "distinct (filter Q (map f xs))" using Cons.prems(1) by (simp split: if_splits)
    have "f a \<noteq> f x"
    proof
      assume e: "f a = f x"
      then have "Q (f a)" using Cons.prems(3) by simp
      then have "f a \<notin> set (filter Q (map f xs))" using Cons.prems(1) by simp
      moreover have "f x \<in> set (filter Q (map f xs))" using m Cons.prems(3) by simp
      ultimately show False using e by simp
    qed
    then show ?thesis using Cons.IH [OF d m Cons.prems(3)] by simp
  qed
qed

lemma findByGoogleId_found:
  assumes "db_ok us" and "u \<in> set us" and "u_google_id u = Some g"
  shows "findByGoogleId us g = Some u"
proof -
  have d: "distinct (filter (\<lambda>g. g \<noteq> None) (map u_google_id us))"
    using assms(1) by (simp add: db_ok_def)
  have "u_google_id u \<noteq> None" using assms(3) by simp
  then have "filter (\<lambda>y. u_google_id y = u_google_id u) us = [u]"
    by (rule filter_key_distinct_on [where Q = "\<lambda>g. g \<noteq> None", OF d assms(2)])
  then show ?thesis by (simp add: findByGoogleId_def single_def assms(3))
qed

lemma findByEmail_found:
  assumes "db_ok us" and "u \<in> set us" and "u_email u = trim (toLowerCase e)"
  shows "findByEmail us e = Some u"
proof -
  have "distinct (map u_email us)" using assms(1) by (simp add: db_ok_def)
  then have "filter (\<lambda>y. u_email y = u_email u) us = [u]"
    using assms(2) by (rule filter_key_distinct)
  then show ?thesis by (simp add: findByEmail_def single_def assms(3))
qed

lemma findById_found:
  assumes "distinct (map u_id us)" and "u \<in> set us"
  shows "findById us (u_id u) = Some u"
  using filter_key_distinct [OF assms] by (simp add: findById_def single_def)

lemma findByGoogleId_absent:
  assumes "db_ok us" and "findByGoogleId us g = None"
  shows "Some g \<notin> set (map u_google_id us)"
proof
  assume "Some g \<in> set (map u_google_id us)"
  then obtain u where "u \<in> set us" and "u_google_id u = Some g" by auto
  then have "findByGoogleId us g = Some u" using assms(1) by (intro findByGoogleId_found)
  then show False using assms(2) by simp
qed

lemma findByEmail_absent:
  assumes "db_ok us" and "findByEmail us e = None"
  shows "trim (toLowerCase e) \<notin> set (map u_email us)"
proof
  assume "trim (toLowerCase e) \<in> set (map u_email us)"
  then obtain u where "u \<in> set us" and "u_email u = trim (toLowerCase e)" by auto
  then have "findByEmail us e = Some u" using assms(1) by (intro findByEmail_found)
  then show False using assms(2) by simp
qed

lemma findByGoogleId_mem:
  "findByGoogleId us g = Some u \<Longrightarrow> u \<in> set us \<and> u_google_id u = Some g"
  by (auto simp add: findByGoogleId_def dest: single_filter_mem)

lemma le_foldr_max: "(x :: nat) \<in> set xs \<Longrightarrow> x \<le> foldr max xs 0"
  by (induction xs) auto

lemma fresh_id_fresh: "fresh_id us \<notin> set (map u_id us)"
proof
  assume "fresh_id us \<in> set (map u_id us)"
  then have "fresh_id us \<le> foldr max (map u_id us) 0" by (rule le_foldr_max)
  then show False by (simp add: fresh_id_def)
qed

lemma db_ok_insert:
  assumes "db_ok us" and "u_id u \<notin> set (map u_id us)" and "u_email u \<notin> set (map u_email us)"
    and "u_google_id u \<notin> set (map u_google_id us) \<or> u_google_id u = None"
  shows "db_ok (us @ [u])"
  using assms by (auto simp add: db_ok_def)

lemma link_ids:
  "map u_id (map (\<lambda>x. if u_id x = i then x\<lparr>u_google_id := Some g\<rparr> else x) us) = map u_id us"
  by (induction us) auto

lemma link_emails:
  "map u_email (map (\<lambda>x. if u_id x = i then x\<lparr>u_google_id := Some g\<rparr> else x) us)
     = map u_email us"
  by (induction us) auto

lemma link_google_ids_subset:
  "set (map u_google_id (map (\<lambda>x. if u_id x = i then x\<lparr>u_google_id := Some g\<rparr> else x) us))
     \<subseteq> insert (Some g) (set (map u_google_id us))"
  by (induction us) auto

lemma link_google_ids_distinct:
  assumes "distinct (filter (\<lambda>g. g \<noteq> None) (map u_google_id us))"
    and "Some g \<notin> set (map u_google_id us)" and "distinct (map u_id us)"
  shows "distinct (filter (\<lambda>g. g \<noteq> None)
           (map u_google_id (map (\<lambda>x. if u_id x = i then x\<lparr>u_google_id := Some g\<rparr> else x) us)))"
  using assms
proof (induction us)
  case Nil
  then show ?case by simp
next
  case (Cons a us)
  let ?l = "map (\<lambda>x. if u_id x = i then x\<lparr>u_google_id := Some g\<rparr> else x) us"
  have ih: "distinct (filter (\<lambda>g. g \<noteq> None) (map u_google_id ?l))"
    using Cons by (simp split: if_splits)
  have sub: "set (map u_google_id ?l) \<subseteq> insert (Some g) (set (map u_google_id us))"
    by (rule link_google_ids_subset)
  show ?case
  proof (cases "u_id a = i")
    case True
    then have "i \<notin> set (map u_id us)" using Cons.prems(3) by auto
    then have "?l = us" by (intro map_idI) auto
    then show ?thesis using True Cons.prems by (simp split: if_splits)
  next
    case False
    have "u_google_id a \<noteq> Some g" using Cons.prems(2) by auto
    moreover have "u_google_id a \<noteq> None \<longrightarrow> u_google_id a \<notin> set (map u_google_id us)"
    proof
      assume n: "u_google_id a \<noteq> None"
      then have "u_google_id a \<notin> set (filter (\<lambda>g. g \<noteq> None) (map u_google_id us))"
        using Cons.prems(1) by simp
      then show "u_google_id a \<notin> set (map u_google_id us)"
        using n by simp
    qed
    ultimately have "u_google_id a \<noteq> None \<longrightarrow> u_google_id a \<notin> set (map u_google_id ?l)"
      using sub by blast
    then show ?thesis using False ih by simp
  qed
qed

lemma db_ok_link:
  assumes "db_ok us" and "Some g \<notin> set (map u_google_id us)"
  shows "db_ok (map (\<lambda>x. if u_id x = i then x\<lparr>u_google_id := Some g\<rparr> else x) us)"
  using assms link_google_ids_distinct [of us g i]
  by (simp only: db_ok_def link_ids link_emails) simp

lemma User_update_link:
  assumes "db_ok us" and "u \<in> set us" and "Some g \<notin> set (map u_google_id us)"
  shows "User_update bhash salt us (u_id u) \<lparr>up_password = None, up_google_id = Some g\<rparr>
           = Inr (u\<lparr>u_google_id := Some g\<rparr>,
                  map (\<lambda>x. if u_id x = u_id u then x\<lparr>u_google_id := Some g\<rparr> else x) us)"
proof -
  have "distinct (map u_id us)" using assms(1) by (simp add: db_ok_def)
  then have fl: "filter (\<lambda>y. u_id y = u_id u) us = [u]"
    using assms(2) by (rule filter_key_distinct)
  have "Some g \<notin> set (map u_google_id (filter (\<lambda>x. u_id x \<noteq> u_id u) us))"
    using assms(3) by auto
  then show ?thesis
    using fl by (simp add: User_update_def apply_updates_def)
qed

lemma findById_link:
  assumes "db_ok us" and "u \<in> set us"
  shows "findById (map (\<lambda>x. if u_id x = u_id u then x\<lparr>u_google_id := Some g\<rparr> else x) us) (u_id u)
           = Some (u\<lparr>u_google_id := Some g\<rparr>)"
proof -
  let ?l = "map (\<lambda>x. if u_id x = u_id u then x\<lparr>u_google_id := Some g\<rparr> else x) us"
  have d: "distinct (map u_id ?l)"
    using assms(1) by (simp only: link_ids db_ok_def)
  have m: "u\<lparr>u_google_id := Some g\<rparr> \<in> set ?l"
    using assms(2) by force
  show ?thesis
    using findById_found [OF d m] by simp
qed

section \<open>The OTP ledgers\<close>

text \<open>
  Claim C3. For an unexpired record of either ledger with fewer than five attempts, a
  verification with a code that does not match increments \<open>attempts\<close> by one, keeps the
  record (nothing else in it changes) and fails with a message that reports five minus the
  new attempt count as the remaining tries. Once \<open>attempts\<close> has reached five, a further
  verification fails with the too-many-attempts message and deletes the record, whatever
  code is submitted, the right one included.
\<close>

theorem verify_wrong_code_counts_attempts:
  assumes "m (toLowerCase email) = Some r" and "now \<le> expiryTime r"
  shows "(attempts r < 5 \<and> otp r \<noteq> code \<longrightarrow>
            verifyOTP now m email code =
              (OtpResult False
                 (''Invalid OTP. '' @ show_int (5 - int (attempts r + 1)) @ '' attempts remaining.'') None,
               m(toLowerCase email \<mapsto> r\<lparr>attempts := attempts r + 1\<rparr>))
          \<and> verifySignupOTP now m email code =
              (OtpResult False
                 (''Invalid OTP. '' @ show_int (5 - int (attempts r + 1)) @ '' attempts remaining.'') None,
               m(toLowerCase email \<mapsto> r\<lparr>attempts := attempts r + 1\<rparr>)))
       \<and> (5 \<le> attempts r \<longrightarrow>
            verifyOTP now m email code =
              (OtpResult False ''Too many failed attempts. Please request a new OTP.'' None,
               m(toLowerCase email := None))
          \<and> verifySignupOTP now m email code =
              (OtpResult False ''Too many failed attempts. Please request a new OTP.'' None,
               m(toLowerCase email := None)))"
  using assms by (simp add: verifyOTP_def verifySignupOTP_def Let_def)

theorem verify_wrong_code_counts_attempts_witness:
  "(storeOTP 0 Map.empty ''A@x.com'' ''123456'' 10) (toLowerCase ''a@X.com'')
      = Some \<lparr>otp = ''123456'', userData = None, expiryTime = 600000, attempts = 0, verified = False\<rparr>
   \<and> fst (verifyOTP 5 (storeOTP 0 Map.empty ''A@x.com'' ''123456'' 10) ''a@X.com'' ''000000'')
      = OtpResult False ''Invalid OTP. 4 attempts remaining.'' None
   \<and> snd (verifySignupOTP 5 (storeOTP 0 Map.empty ''A@x.com'' ''123456'' 10) ''a@X.com'' ''000000'') ''a@x.com''
      = Some \<lparr>otp = ''123456'', userData = None, expiryTime = 600000, attempts = 1, verified = False\<rparr>
   \<and> verifyOTP 5 [''a@x.com'' \<mapsto> \<lparr>otp = ''123456'', userData = None, expiryTime = 600000, attempts = 5, verified = False\<rparr>] ''a@X.com'' ''123456''
      = (OtpResult False ''Too many failed attempts. Please request a new OTP.'' None,
         [''a@x.com'' \<mapsto> \<lparr>otp = ''123456'', userData = None, expiryTime = 600000, attempts = 5, verified = False\<rparr>](toLowerCase ''a@X.com'' := None))"
proof -
  let ?r = "\<lparr>otp = ''123456'', userData = None, expiryTime = 600000, attempts = 0, verified = False\<rparr>"
  let ?m = "storeOTP 0 Map.empty ''A@x.com'' ''123456'' 10"
  let ?r5 = "?r\<lparr>attempts := 5\<rparr>"
  let ?m5 = "[''a@x.com'' \<mapsto> ?r5]"
  have k: "toLowerCase ''a@X.com'' = ''a@x.com''" by code_simp
  have h1: "?m (toLowerCase ''a@X.com'') = Some ?r" by code_simp
  have h2: "5 \<le> expiryTime ?r" by simp
  have a: "attempts ?r < 5 \<and> otp ?r \<noteq> ''000000''" by simp
  have h3: "?m5 (toLowerCase ''a@X.com'') = Some ?r5" by (simp add: k)
  have h4: "5 \<le> expiryTime ?r5" by simp
  have b: "5 \<le> attempts ?r5" by simp
  have sh: "show_int 4 = ''4''" by (simp add: show_int_def show_nat.simps digit_char_def)
  from verify_wrong_code_counts_attempts [where m = ?m and email = "''a@X.com''" and now = 5
      and code = "''000000''", OF h1 h2] a
  have c1: "verifyOTP 5 ?m ''a@X.com'' ''000000'' =
              (OtpResult False (''Invalid OTP. '' @ show_int (5 - int (attempts ?r + 1)) @ '' attempts remaining.'') None,
               ?m(toLowerCase ''a@X.com'' \<mapsto> ?r\<lparr>attempts := attempts ?r + 1\<rparr>))"
    and c2: "verifySignupOTP 5 ?m ''a@X.com'' ''000000'' =
              (OtpResult False (''Invalid OTP. '' @ show_int (5 - int (attempts ?r + 1)) @ '' attempts remaining.'') None,
               ?m(toLowerCase ''a@X.com'' \<mapsto> ?r\<lparr>attempts := attempts ?r + 1\<rparr>))"
    by blast+
  from verify_wrong_code_counts_attempts [where m = ?m5 and email = "''a@X.com''" and now = 5
      and code = "''123456''", OF h3 h4] b
  have c3: "verifyOTP 5 ?m5 ''a@X.com'' ''123456'' =
              (OtpResult False ''Too many failed attempts. Please request a new OTP.'' None,
               ?m5(toLowerCase ''a@X.com'' := None))"
    by blast
  show ?thesis using h1 c1 c2 c3 by (simp add: k sh)
qed

text \<open>
  The scenario of the specification: after a store and five verifications with a wrong
  code, all before the expiry, a sixth verification with the right code is refused and the
  record is gone.
\<close>

lemma sixth_attempt_refused:
  assumes "c \<noteq> code" and "t \<le> now + ttl * 60 * 1000"
  shows "verifyOTP t (((\<lambda>m. snd (verifyOTP t m email c)) ^^ 5) (storeOTP now m email code ttl))
           email code
         = (OtpResult False ''Too many failed attempts. Please request a new OTP.'' None,
            m(toLowerCase email := None))
       \<and> verifySignupOTP t
           (((\<lambda>m. snd (verifySignupOTP t m email c)) ^^ 5) (storeSignupOTP now m email code ud ttl))
           email code
         = (OtpResult False ''Too many failed attempts. Please request a new OTP.'' None,
            m(toLowerCase email := None))"
  using assms
  by (simp add: eval_nat_numeral verifyOTP_def verifySignupOTP_def storeOTP_def
      storeSignupOTP_def Let_def)

text \<open>
  Claim C6. For a record stored in either ledger, a verification at a time strictly after
  \<open>expiryTime\<close> deletes the record and fails with the expiry message, whatever the submitted
  code and the attempt count are.
\<close>

theorem verify_after_expiry:
  assumes "m (toLowerCase email) = Some r" and "expiryTime r < now"
  shows "verifyOTP now m email code =
           (OtpResult False ''OTP has expired. Please request a new one.'' None,
            m(toLowerCase email := None))
       \<and> verifySignupOTP now m email code =
           (OtpResult False ''OTP has expired. Please request a new one.'' None,
            m(toLowerCase email := None))"
  using assms by (simp add: verifyOTP_def verifySignupOTP_def Let_def)

theorem verify_after_expiry_witness:
  "storeOTP 0 Map.empty ''A@x.com'' ''123456'' 0 (toLowerCase ''a@X.com'')
      = Some \<lparr>otp = ''123456'', userData = None, expiryTime = 0, attempts = 0, verified = False\<rparr>
   \<and> expiryTime \<lparr>otp = ''123456'', userData = None, expiryTime = 0, attempts = 0, verified = False\<rparr> < 1
   \<and> verifyOTP 1 (storeOTP 0 Map.empty ''A@x.com'' ''123456'' 0) ''a@X.com'' ''123456'' =
           (OtpResult False ''OTP has expired. Please request a new one.'' None,
            (storeOTP 0 Map.empty ''A@x.com'' ''123456'' 0)(toLowerCase ''a@X.com'' := None))
   \<and> verifySignupOTP 1 (storeOTP 0 Map.empty ''A@x.com'' ''123456'' 0) ''a@X.com'' ''123456'' =
           (OtpResult False ''OTP has expired. Please request a new one.'' None,
            (storeOTP 0 Map.empty ''A@x.com'' ''123456'' 0)(toLowerCase ''a@X.com'' := None))"
proof -
  have h1: "storeOTP 0 Map.empty ''A@x.com'' ''123456'' 0 (toLowerCase ''a@X.com'')
      = Some \<lparr>otp = ''123456'', userData = None, expiryTime = 0, attempts = 0, verified = False\<rparr>"
    by code_simp
  have h2: "expiryTime \<lparr>otp = ''123456'', userData = None, expiryTime = 0, attempts = 0, verified = False\<rparr> < 1"
    by simp
  from verify_after_expiry [where m = "storeOTP 0 Map.empty ''A@x.com'' ''123456'' 0"
      and email = "''a@X.com''" and now = 1 and code = "''123456''", OF h1 h2] h1 h2
  show ?thesis by blast
qed

text \<open>
  What the ledgers do guarantee: a record stored under an address is found under every
  variant of it that has the same lower-cased form. A verification with the stored code
  before the expiry succeeds (and marks the reset record as verified), and a clear removes
  the record.
\<close>

lemma ledger_case_variant_located:
  assumes "toLowerCase e2 = toLowerCase e1" and "t \<le> now + ttl * 60 * 1000"
  shows "verifyOTP t (storeOTP now m e1 c ttl) e2 c
           = (OtpResult True ''OTP verified successfully'' None,
              m(toLowerCase e1 \<mapsto>
                  \<lparr>otp = c, userData = None, expiryTime = now + ttl * 60 * 1000, attempts = 0,
                   verified = True\<rparr>))
       \<and> verifySignupOTP t (storeSignupOTP now m e1 c ud ttl) e2 c
           = (OtpResult True ''OTP verified successfully'' (Some ud),
              m(toLowerCase e1 \<mapsto>
                  \<lparr>otp = c, userData = Some ud, expiryTime = now + ttl * 60 * 1000,
                   attempts = 0, verified = False\<rparr>))
       \<and> isOTPVerified t (snd (verifyOTP t (storeOTP now m e1 c ttl) e2 c)) e2
       \<and> clearOTP (storeOTP now m e1 c ttl) e2 = m(toLowerCase e1 := None)
       \<and> clearSignupOTP (storeSignupOTP now m e1 c ud ttl) e2 = m(toLowerCase e1 := None)"
  using assms
  by (simp add: storeOTP_def storeSignupOTP_def verifyOTP_def verifySignupOTP_def
      isOTPVerified_def clearOTP_def clearSignupOTP_def Let_def)

section \<open>The handlers\<close>

lemma verifySignupOTP_ctrl_never_409:
  "status (fst (verifySignupOTP_ctrl bhash now salt s email code)) \<noteq> 409"
  by (auto simp add: verifySignupOTP_ctrl_def json_def Let_def split: prod.splits sum.splits
      option.splits dest: User_create_err_code)

text \<open>
  Claim C2 says that a forgot-password request for an unregistered email is answered with
  \<open>success = true\<close> and the same message as for a registered one, and stores nothing. The
  handler does answer 200 with \<open>success = true\<close> and leaves the state alone, but its message
  differs from both messages of the registered case, so the response tells the two apart.
\<close>

theorem forgotPassword_message_reveals_account:
  assumes "email \<noteq> []" and "findByEmail (users s) (trim (toLowerCase email)) = None"
    and "email' \<noteq> []" and "findByEmail (users s') (trim (toLowerCase email')) = Some u"
  shows "status (fst (forgotPassword now r mail_ok s email)) = 200
       \<and> success (fst (forgotPassword now r mail_ok s email))
       \<and> snd (forgotPassword now r mail_ok s email) = s
       \<and> message (fst (forgotPassword now r mail_ok s email))
           \<noteq> message (fst (forgotPassword now' r' mail_ok' s' email'))"
  using assms by (simp add: forgotPassword_def json_def Let_def)

theorem forgotPassword_message_reveals_account_witness:
  "''ghost@x.com'' \<noteq> []
   \<and> findByEmail (users \<lparr>users = [], otpStore = Map.empty, signupOtpStore = Map.empty\<rparr>)
         (trim (toLowerCase ''ghost@x.com'')) = None
   \<and> ''a@x.com'' \<noteq> []
   \<and> findByEmail
         (users \<lparr>users = [\<lparr>u_id = 1, u_email = ''a@x.com'', u_password = Some ''h'',
                              u_name = ''a'', u_google_id = None\<rparr>],
                  otpStore = Map.empty, signupOtpStore = Map.empty\<rparr>)
         (trim (toLowerCase ''a@x.com''))
       = Some \<lparr>u_id = 1, u_email = ''a@x.com'', u_password = Some ''h'', u_name = ''a'',
                u_google_id = None\<rparr>
   \<and> status (fst (forgotPassword 0 23456 True
                     \<lparr>users = [], otpStore = Map.empty, signupOtpStore = Map.empty\<rparr>
                     ''ghost@x.com'')) = 200
   \<and> success (fst (forgotPassword 0 23456 True
                      \<lparr>users = [], otpStore = Map.empty, signupOtpStore = Map.empty\<rparr>
                      ''ghost@x.com''))
   \<and> snd (forgotPassword 0 23456 True
             \<lparr>users = [], otpStore = Map.empty, signupOtpStore = Map.empty\<rparr> ''ghost@x.com'')
       = \<lparr>users = [], otpStore = Map.empty, signupOtpStore = Map.empty\<rparr>
   \<and> message (fst (forgotPassword 0 23456 True
                      \<lparr>users = [], otpStore = Map.empty, signupOtpStore = Map.empty\<rparr>
                      ''ghost@x.com''))
       \<noteq> message (fst (forgotPassword 0 23456 True
                      \<lparr>users = [\<lparr>u_id = 1, u_email = ''a@x.com'', u_password = Some ''h'',
                                   u_name = ''a'', u_google_id = None\<rparr>],
                       otpStore = Map.empty, signupOtpStore = Map.empty\<rparr>
                      ''a@x.com''))"
proof -
  let ?s = "\<lparr>users = [], otpStore = Map.empty, signupOtpStore = Map.empty\<rparr>"
  let ?u = "\<lparr>u_id = 1, u_email = ''a@x.com'', u_password = Some ''h'', u_name = ''a'',
             u_google_id = None\<rparr>"
  let ?s' = "\<lparr>users = [?u], otpStore = Map.empty, signupOtpStore = Map.empty\<rparr>"
  have h1: "''ghost@x.com'' \<noteq> []" by simp
  have h2: "findByEmail (users ?s) (trim (toLowerCase ''ghost@x.com'')) = None" by code_simp
  have h3: "''a@x.com'' \<noteq> []" by simp
  have h4: "findByEmail (users ?s') (trim (toLowerCase ''a@x.com'')) = Some ?u" by code_simp
  from forgotPassword_message_reveals_account [OF h1 h2 h3 h4, of 0 23456 True 0 23456 True]
    h1 h2 h3 h4
  show ?thesis by blast
qed

text \<open>
  Claim C4 says that a signup for an email that already has a user record always ends in
  409, also when only the data store detects the duplicate at creation time. The handlers
  test \<open>error.code === 11000\<close>, but \<open>User.create\<close> rethrows every store error as a new
  \<open>Error\<close> without a code: after a signup OTP is requested for a free address and the
  address is then registered by a direct signup, submitting the right code is answered
  with 500, whatever the hash function is.
\<close>

theorem verify_signup_duplicate_gives_500:
  "findByEmail
     (users (snd (signup bhash ''s2''
        (snd (requestSignupOTP bhash 0 ''s1'' 23456 True
                \<lparr>users = [], otpStore = Map.empty, signupOtpStore = Map.empty\<rparr>
                ''a@x.com'' ''pw123456'' None))
        ''a@x.com'' ''pw123456'' None)))
     ''a@x.com''
     = Some \<lparr>u_id = 1, u_email = ''a@x.com'', u_password = Some (bhash ''pw123456'' ''s2''),
              u_name = ''a'', u_google_id = None\<rparr>
   \<and> fst (verifySignupOTP_ctrl bhash 1 ''s3''
        (snd (signup bhash ''s2''
           (snd (requestSignupOTP bhash 0 ''s1'' 23456 True
                   \<lparr>users = [], otpStore = Map.empty, signupOtpStore = Map.empty\<rparr>
                   ''a@x.com'' ''pw123456'' None))
           ''a@x.com'' ''pw123456'' None))
        ''a@x.com'' ''123456'')
     = json 500 False ''Failed to create account. Please try again.''"
proof -
  have k: "toLowerCase ''a@x.com'' = ''a@x.com''" "trim ''a@x.com'' = ''a@x.com''"
    "split_at_0 ''a@x.com'' = ''a''" "generateOTP 23456 = ''123456''"
    by (simp_all add: toLowerCase_def lower_char_def trim_def is_ws_def split_at_0_def
        generateOTP_def show_nat.simps digit_char_def)
  show ?thesis
    by (simp add: requestSignupOTP_def signup_def verifySignupOTP_ctrl_def verifySignupOTP_def
        storeSignupOTP_def findByEmail_def single_def User_create_def db_insert_def fresh_id_def
        json_def Let_def k)
qed

lemma signup_existing_email_409:
  "findByEmail (users s) email = Some u \<Longrightarrow>
     signup bhash salt s email pw nm = (json 409 False ''User with this email already exists'', s)"
  by (simp add: signup_def)

text \<open>
  Claim C8. When the mail service fails during a signup-OTP request or a forgot-password
  request (the requests that reach the dispatch: the fields are present and the address is
  free, respectively registered), the response is still 200 with \<open>success = true\<close>, it
  carries a warning and no error, and the OTP record is stored in the ledger of that flow.
  For every request, the status, the success flag and the resulting state are the same as
  when the mail is delivered.
\<close>

theorem mail_failure_still_succeeds:
  "(email \<noteq> [] \<and> pw \<noteq> [] \<and> findByEmail (users s) (trim (toLowerCase email)) = None \<longrightarrow>
      status (fst (requestSignupOTP bhash now salt r False s email pw nm)) = 200
    \<and> success (fst (requestSignupOTP bhash now salt r False s email pw nm))
    \<and> warning (fst (requestSignupOTP bhash now salt r False s email pw nm)) \<noteq> None
    \<and> error (fst (requestSignupOTP bhash now salt r False s email pw nm)) = None
    \<and> (\<exists>ud. signupOtpStore (snd (requestSignupOTP bhash now salt r False s email pw nm))
                (toLowerCase email)
              = Some \<lparr>otp = generateOTP r, userData = Some ud, expiryTime = now + 600000,
                      attempts = 0, verified = False\<rparr>
            \<and> ud_email ud = trim (toLowerCase email)
            \<and> ud_password ud = Some (bhash pw salt)))
   \<and> (email \<noteq> [] \<and> findByEmail (users s) (trim (toLowerCase email)) = Some u \<longrightarrow>
      status (fst (forgotPassword now r False s email)) = 200
    \<and> success (fst (forgotPassword now r False s email))
    \<and> warning (fst (forgotPassword now r False s email)) \<noteq> None
    \<and> error (fst (forgotPassword now r False s email)) = None
    \<and> otpStore (snd (forgotPassword now r False s email)) (toLowerCase email)
          = Some \<lparr>otp = generateOTP r, userData = None, expiryTime = now + 600000,
                  attempts = 0, verified = False\<rparr>)
   \<and> status (fst (requestSignupOTP bhash now salt r False s email pw nm))
       = status (fst (requestSignupOTP bhash now salt r True s email pw nm))
   \<and> success (fst (requestSignupOTP bhash now salt r False s email pw nm))
       = success (fst (requestSignupOTP bhash now salt r True s email pw nm))
   \<and> snd (requestSignupOTP bhash now salt r False s email pw nm)
       = snd (requestSignupOTP bhash now salt r True s email pw nm)
   \<and> status (fst (forgotPassword now r False s email)) = status (fst (forgotPassword now r True s email))
   \<and> success (fst (forgotPassword now r False s email)) = success (fst (forgotPassword now r True s email))
   \<and> snd (forgotPassword now r False s email) = snd (forgotPassword now r True s email)"
  by (auto simp add: requestSignupOTP_def forgotPassword_def storeSignupOTP_def storeOTP_def
      json_def Let_def split: option.splits)

theorem mail_failure_still_succeeds_witness:
  "''a@x.com'' \<noteq> [] \<and> ''pw123456'' \<noteq> []
   \<and> findByEmail (users \<lparr>users = [], otpStore = Map.empty, signupOtpStore = Map.empty\<rparr>)
         (trim (toLowerCase ''a@x.com'')) = None
   \<and> status (fst (requestSignupOTP (\<lambda>p s. s @ p) 0 ''s1'' 23456 False
                     \<lparr>users = [], otpStore = Map.empty, signupOtpStore = Map.empty\<rparr>
                     ''a@x.com'' ''pw123456'' None)) = 200
   \<and> success (fst (requestSignupOTP (\<lambda>p s. s @ p) 0 ''s1'' 23456 False
                      \<lparr>users = [], otpStore = Map.empty, signupOtpStore = Map.empty\<rparr>
                      ''a@x.com'' ''pw123456'' None))
   \<and> warning (fst (requestSignupOTP (\<lambda>p s. s @ p) 0 ''s1'' 23456 False
                      \<lparr>users = [], otpStore = Map.empty, signupOtpStore = Map.empty\<rparr>
                      ''a@x.com'' ''pw123456'' None)) \<noteq> None
   \<and> findByEmail
         (users \<lparr>users = [\<lparr>u_id = 1, u_email = ''a@x.com'', u_password = Some ''h'',
                              u_name = ''a'', u_google_id = None\<rparr>],
                  otpStore = Map.empty, signupOtpStore = Map.empty\<rparr>)
         (trim (toLowerCase ''a@x.com''))
       = Some \<lparr>u_id = 1, u_email = ''a@x.com'', u_password = Some ''h'', u_name = ''a'',
                u_google_id = None\<rparr>
   \<and> status (fst (forgotPassword 0 23456 False
                     \<lparr>users = [\<lparr>u_id = 1, u_email = ''a@x.com'', u_password = Some ''h'',
                                  u_name = ''a'', u_google_id = None\<rparr>],
                      otpStore = Map.empty, signupOtpStore = Map.empty\<rparr>
                     ''a@x.com'')) = 200
   \<and> success (fst (forgotPassword 0 23456 False
                     \<lparr>users = [\<lparr>u_id = 1, u_email = ''a@x.com'', u_password = Some ''h'',
                                  u_name = ''a'', u_google_id = None\<rparr>],
                      otpStore = Map.empty, signupOtpStore = Map.empty\<rparr>
                     ''a@x.com''))
   \<and> warning (fst (forgotPassword 0 23456 False
                     \<lparr>users = [\<lparr>u_id = 1, u_email = ''a@x.com'', u_password = Some ''h'',
                                  u_name = ''a'', u_google_id = None\<rparr>],
                      otpStore = Map.empty, signupOtpStore = Map.empty\<rparr>
                     ''a@x.com'')) \<noteq> None
   \<and> otpStore (snd (forgotPassword 0 23456 False
                     \<lparr>users = [\<lparr>u_id = 1, u_email = ''a@x.com'', u_password = Some ''h'',
                                  u_name = ''a'', u_google_id = None\<rparr>],
                      otpStore = Map.empty, signupOtpStore = Map.empty\<rparr>
                     ''a@x.com'')) (toLowerCase ''a@x.com'')
       = Some \<lparr>otp = generateOTP 23456, userData = None, expiryTime = 0 + 600000,
               attempts = 0, verified = False\<rparr>"
proof -
  let ?e = "\<lparr>users = [], otpStore = Map.empty, signupOtpStore = Map.empty\<rparr>"
  let ?u = "\<lparr>u_id = 1, u_email = ''a@x.com'', u_password = Some ''h'', u_name = ''a'',
             u_google_id = None\<rparr>"
  let ?s = "\<lparr>users = [?u], otpStore = Map.empty, signupOtpStore = Map.empty\<rparr>"
  have h1: "''a@x.com'' \<noteq> [] \<and> ''pw123456'' \<noteq> []
            \<and> findByEmail (users ?e) (trim (toLowerCase ''a@x.com'')) = None"
    by code_simp
  have h2: "''a@x.com'' \<noteq> [] \<and> findByEmail (users ?s) (trim (toLowerCase ''a@x.com'')) = Some ?u"
    by code_simp
  note t1 = mail_failure_still_succeeds [where email = "''a@x.com''" and pw = "''pw123456''"
      and s = ?e and bhash = "\<lambda>p s. s @ p" and now = 0 and salt = "''s1''" and r = 23456
      and nm = None]
  note t2 = mail_failure_still_succeeds [where email = "''a@x.com''" and s = ?s and u = ?u
      and now = 0 and r = 23456]
  show ?thesis using h1 h2 t1 t2 by blast
qed

text \<open>
  Claim C10. If the submitted signup code matches and the creation of the account then
  fails, the handler answers 500 and leaves the whole state as it was: the signup record is
  neither cleared nor is its attempt counter incremented, so the same email and code verify
  again at any later time up to the expiry.
\<close>

theorem create_failure_keeps_signup_record:
  assumes "email \<noteq> []" and "code \<noteq> []"
    and "signupOtpStore s (trim (toLowerCase email)) = Some stored"
    and "now \<le> expiryTime stored" and "attempts stored < 5" and "otp stored = code"
    and "userData stored = Some ud"
    and "User_create bhash salt (users s) ud = Inl e"
  shows "verifySignupOTP_ctrl bhash now salt s email code
           = (json 500 False ''Failed to create account. Please try again.'', s)
       \<and> signupOtpStore (snd (verifySignupOTP_ctrl bhash now salt s email code))
             (trim (toLowerCase email)) = Some stored
       \<and> (\<forall>now'. now' \<le> expiryTime stored \<longrightarrow>
             verifySignupOTP now'
               (signupOtpStore (snd (verifySignupOTP_ctrl bhash now salt s email code)))
               (trim (toLowerCase email)) code
             = (OtpResult True ''OTP verified successfully'' (Some ud), signupOtpStore s))"
proof -
  have v: "\<And>t. t \<le> expiryTime stored \<Longrightarrow>
             verifySignupOTP t (signupOtpStore s) (trim (toLowerCase email)) code
             = (OtpResult True ''OTP verified successfully'' (Some ud), signupOtpStore s)"
    using assms(3,5,6,7) by (simp add: verifySignupOTP_def canonical_lower Let_def)
  have c: "err_code e = None"
    using assms(8) by (rule User_create_err_code)
  have r: "verifySignupOTP_ctrl bhash now salt s email code
             = (json 500 False ''Failed to create account. Please try again.'', s)"
    using assms(1,2,4,8) c by (simp add: verifySignupOTP_ctrl_def v Let_def)
  show ?thesis using r v assms(3) by simp
qed

theorem create_failure_keeps_signup_record_witness:
  "verifySignupOTP_ctrl (\<lambda>p s. s @ p) 5 ''s3''
     \<lparr>users = [\<lparr>u_id = 1, u_email = ''a@x.com'', u_password = Some ''s2pw123456'',
                  u_name = ''a'', u_google_id = None\<rparr>],
      otpStore = Map.empty,
      signupOtpStore = [''a@x.com'' \<mapsto>
         \<lparr>otp = ''123456'',
          userData = Some \<lparr>ud_email = ''a@x.com'', ud_password = Some ''s1pw123456'',
                           ud_name = Some ''a'', ud_googleId = None\<rparr>,
          expiryTime = 600000, attempts = 2, verified = False\<rparr>]\<rparr>
     ''a@x.com'' ''123456''
   = (json 500 False ''Failed to create account. Please try again.'',
      \<lparr>users = [\<lparr>u_id = 1, u_email = ''a@x.com'', u_password = Some ''s2pw123456'',
                  u_name = ''a'', u_google_id = None\<rparr>],
      otpStore = Map.empty,
      signupOtpStore = [''a@x.com'' \<mapsto>
         \<lparr>otp = ''123456'',
          userData = Some \<lparr>ud_email = ''a@x.com'', ud_password = Some ''s1pw123456'',
                           ud_name = Some ''a'', ud_googleId = None\<rparr>,
          expiryTime = 600000, attempts = 2, verified = False\<rparr>]\<rparr>)"
proof -
  let ?ud = "\<lparr>ud_email = ''a@x.com'', ud_password = Some ''s1pw123456'',
               ud_name = Some ''a'', ud_googleId = None\<rparr>"
  let ?r = "\<lparr>otp = ''123456'', userData = Some ?ud, expiryTime = 600000, attempts = 2,
             verified = False\<rparr>"
  let ?s = "\<lparr>users = [\<lparr>u_id = 1, u_email = ''a@x.com'', u_password = Some ''s2pw123456'',
                  u_name = ''a'', u_google_id = None\<rparr>],
      otpStore = Map.empty, signupOtpStore = [''a@x.com'' \<mapsto> ?r]\<rparr>"
  have h1: "''a@x.com'' \<noteq> []" and h2: "''123456'' \<noteq> []" by simp_all
  have h3: "signupOtpStore ?s (trim (toLowerCase ''a@x.com'')) = Some ?r" by code_simp
  have h4: "5 \<le> expiryTime ?r" and h5: "attempts ?r < 5" and h6: "otp ?r = ''123456''"
    and h7: "userData ?r = Some ?ud" by simp_all
  have h8: "User_create (\<lambda>p s. s @ p) ''s3'' (users ?s) ?ud
      = Inl (Error None ''Failed to create user: duplicate key value violates unique constraint users_email_key'')"
    by code_simp
  from create_failure_keeps_signup_record [OF h1 h2 h3 h4 h5 h6 h7 h8]
  show ?thesis by blast
qed

text \<open>
  Claim C1 says that an OTP-gated signup stores the password hash computed in the request
  phase as it is, so that a later login with the plaintext password succeeds. The request
  handler hashes the password and puts the hash into the pending user data; the verify
  handler passes this data to \<open>User.create\<close>, which hashes every password it is given. The
  stored value is therefore the hash of the hash, and the login compares the plaintext
  password with it.
\<close>

theorem otp_signup_hashes_twice:
  assumes "email \<noteq> []" and "pw \<noteq> []"
    and "trim (toLowerCase email) \<notin> set (map u_email (users s))"
    and "toLowerCase email = trim (toLowerCase email)"
    and "now' \<le> now + 600000"
    and "bhash pw salt1 \<noteq> []"
    and "bhash (bhash pw salt1) salt2 \<noteq> []"
  shows "\<exists>u. status (fst (verifySignupOTP_ctrl bhash now' salt2
                   (snd (requestSignupOTP bhash now salt1 r mail_ok s email pw nm))
                   email (generateOTP r))) = 201
           \<and> users (snd (verifySignupOTP_ctrl bhash now' salt2
                   (snd (requestSignupOTP bhash now salt1 r mail_ok s email pw nm))
                   email (generateOTP r))) = users s @ [u]
           \<and> u_email u = trim (toLowerCase email)
           \<and> u_password u = Some (bhash (bhash pw salt1) salt2)
           \<and> (status (fst (login bcompare
                   (snd (verifySignupOTP_ctrl bhash now' salt2
                      (snd (requestSignupOTP bhash now salt1 r mail_ok s email pw nm))
                      email (generateOTP r)))
                   email pw)) = 200)
               = bcompare pw (bhash (bhash pw salt1) salt2)"
proof -
  let ?c = "trim (toLowerCase email)"
  let ?nm = "case nm of None \<Rightarrow> split_at_0 email
             | Some n \<Rightarrow> if trim n = [] then split_at_0 email else trim n"
  let ?ud = "\<lparr>ud_email = ?c, ud_password = Some (bhash pw salt1), ud_name = Some ?nm,
               ud_googleId = None\<rparr>"
  let ?st = "storeSignupOTP now (signupOtpStore s) email (generateOTP r) ?ud 10"
  let ?s1 = "s\<lparr>signupOtpStore := ?st\<rparr>"
  have absent: "filter (\<lambda>u. u_email u = ?c) (users s) = []"
    using assms(3) by (rule filter_absent)
  have req: "snd (requestSignupOTP bhash now salt1 r mail_ok s email pw nm) = ?s1"
    using assms(1,2) absent
    by (simp add: requestSignupOTP_def findByEmail_def canonical_idem single_def Let_def)
  have key: "toLowerCase ?c = toLowerCase email"
    using assms(4) by (metis toLowerCase_idem)
  have util: "verifySignupOTP now' ?st ?c (generateOTP r)
                = (OtpResult True ''OTP verified successfully'' (Some ?ud), ?st)"
    using assms(5) by (simp add: verifySignupOTP_def storeSignupOTP_def key Let_def)
  obtain u where cr: "User_create bhash salt2 (users s) ?ud = Inr (u, users s @ [u])"
    and ue: "u_email u = ?c" and up: "u_password u = Some (bhash (bhash pw salt1) salt2)"
    using assms(3,6)
    by (simp add: User_create_def db_insert_def canonical_idem Let_def)
  let ?s2 = "?s1\<lparr>users := users s @ [u],
                  signupOtpStore := clearSignupOTP ?st email\<rparr>"
  have ver: "verifySignupOTP_ctrl bhash now' salt2 ?s1 email (generateOTP r)
               = ((json 201 True ''Account created successfully'')
                    \<lparr>data := Some (toJSON u, generateToken (u_id u) (u_email u))\<rparr>, ?s2)"
    using assms(1) generateOTP_nonempty [of r] cr
    by (simp add: verifySignupOTP_ctrl_def util Let_def)
  have found: "filter (\<lambda>x. u_email x = ?c) (users s @ [u]) = [u]"
    using absent ue by simp
  have lg: "(status (fst (login bcompare ?s2 email pw)) = 200)
              = bcompare pw (bhash (bhash pw salt1) salt2)"
    using assms(7) found up
    by (simp add: login_def verifyPassword_def canonical_idem single_def json_def)
  show ?thesis
    using ue up lg by (auto simp add: req ver json_def intro!: exI [of _ u])
qed

theorem otp_signup_hashes_twice_witness:
  "''a@x.com'' \<noteq> [] \<and> ''pw123456'' \<noteq> []
   \<and> trim (toLowerCase ''a@x.com'')
       \<notin> set (map u_email (users \<lparr>users = [], otpStore = Map.empty, signupOtpStore = Map.empty\<rparr>))
   \<and> toLowerCase ''a@x.com'' = trim (toLowerCase ''a@x.com'')
   \<and> (1 :: int) \<le> 0 + 600000
   \<and> (\<lambda>p s. s @ p) ''pw123456'' ''s1'' \<noteq> []
   \<and> (\<lambda>p s. s @ p) ((\<lambda>p s. s @ p) ''pw123456'' ''s1'') ''s2'' \<noteq> []
   \<and> status (fst (login (\<lambda>p h. drop 2 h = p)
         (snd (verifySignupOTP_ctrl (\<lambda>p s. s @ p) 1 ''s2''
            (snd (requestSignupOTP (\<lambda>p s. s @ p) 0 ''s1'' 23456 True
                    \<lparr>users = [], otpStore = Map.empty, signupOtpStore = Map.empty\<rparr>
                    ''a@x.com'' ''pw123456'' None))
            ''a@x.com'' (generateOTP 23456)))
         ''a@x.com'' ''pw123456'')) \<noteq> 200"
proof -
  let ?e = "\<lparr>users = [], otpStore = Map.empty, signupOtpStore = Map.empty\<rparr>"
  have h1: "''a@x.com'' \<noteq> []" and h2: "''pw123456'' \<noteq> []" by simp_all
  have h3: "trim (toLowerCase ''a@x.com'') \<notin> set (map u_email (users ?e))" by simp
  have h4: "toLowerCase ''a@x.com'' = trim (toLowerCase ''a@x.com'')" by code_simp
  have h5: "(1 :: int) \<le> 0 + 600000" by simp
  have h6: "(\<lambda>p s. s @ p) ''pw123456'' ''s1'' \<noteq> []" by simp
  have h7: "(\<lambda>p s. s @ p) ((\<lambda>p s. s @ p) ''pw123456'' ''s1'') ''s2'' \<noteq> []" by simp
  have n: "\<not> (\<lambda>p h. drop 2 h = p) ''pw123456''
             ((\<lambda>p s. s @ p) ((\<lambda>p s. s @ p) ''pw123456'' ''s1'') ''s2'')"
    by simp
  from otp_signup_hashes_twice [where bhash = "\<lambda>p s. s @ p" and bcompare = "\<lambda>p h. drop 2 h = p"
      and r = 23456 and mail_ok = True and nm = None, OF h1 h2 h3 h4 h5 h6 h7] n
  have "status (fst (login (\<lambda>p h. drop 2 h = p)
         (snd (verifySignupOTP_ctrl (\<lambda>p s. s @ p) 1 ''s2''
            (snd (requestSignupOTP (\<lambda>p s. s @ p) 0 ''s1'' 23456 True ?e
                    ''a@x.com'' ''pw123456'' None))
            ''a@x.com'' (generateOTP 23456)))
         ''a@x.com'' ''pw123456'')) \<noteq> 200"
    by blast
  then show ?thesis using h1 h2 h3 h4 h5 h6 h7 by blast
qed

text \<open>The direct signup, by contrast, stores the hash of the password itself.\<close>

lemma direct_signup_hashes_once:
  assumes "pw \<noteq> []" and "trim (toLowerCase email) \<notin> set (map u_email (users s))"
    and "bhash pw salt \<noteq> []"
  shows "\<exists>u. users (snd (signup bhash salt s email pw nm)) = users s @ [u]
           \<and> u_email u = trim (toLowerCase email)
           \<and> u_password u = Some (bhash pw salt)
           \<and> (status (fst (login bcompare (snd (signup bhash salt s email pw nm)) email pw)) = 200)
               = bcompare pw (bhash pw salt)"
proof -
  let ?c = "trim (toLowerCase email)"
  let ?ud = "\<lparr>ud_email = ?c, ud_password = Some pw, ud_name = map_option trim nm,
               ud_googleId = None\<rparr>"
  have absent: "filter (\<lambda>u. u_email u = ?c) (users s) = []"
    using assms(2) by (rule filter_absent)
  obtain u where cr: "User_create bhash salt (users s) ?ud = Inr (u, users s @ [u])"
    and ue: "u_email u = ?c" and up: "u_password u = Some (bhash pw salt)"
    using assms(1,2) by (simp add: User_create_def db_insert_def canonical_idem Let_def)
  have sg: "snd (signup bhash salt s email pw nm) = s\<lparr>users := users s @ [u]\<rparr>"
    using absent cr by (simp add: signup_def findByEmail_def single_def)
  have found: "filter (\<lambda>x. u_email x = ?c) (users s @ [u]) = [u]"
    using absent ue by simp
  have lg: "(status (fst (login bcompare (s\<lparr>users := users s @ [u]\<rparr>) email pw)) = 200)
              = bcompare pw (bhash pw salt)"
    using assms(3) found up
    by (simp add: login_def verifyPassword_def canonical_idem single_def json_def)
  show ?thesis
    using ue up lg by (auto simp add: sg intro!: exI [of _ u])
qed

text \<open>
  Claim C9 says that both ledgers key their records by the canonical email, so that a
  record stored under an address is found under every variant that differs in letter case
  or in surrounding white space. The ledger functions only lower-case the key, and the
  handlers trim the address before a verification but not before a store. A code
  requested for an address with a leading space is therefore stored under the untrimmed
  key and looked up under the trimmed one: submitting the very same address with the right
  code is answered with 400 and the no-OTP message, in the signup flow and in the reset
  flow, for every hash function. On the ledger itself, a record stored under the padded
  address is neither found nor cleared under the trimmed one.
  The padding is the ASCII space, which \<open>trim\<close> strips in the code as in the model.
\<close>

theorem padded_email_code_not_found:
  "trim (toLowerCase '' a@x.com'') = trim (toLowerCase ''a@x.com'')
   \<and> signupOtpStore (snd (requestSignupOTP bhash 0 ''s1'' 23456 True
      \<lparr>users = [], otpStore = Map.empty, signupOtpStore = Map.empty\<rparr>
      '' a@x.com'' ''pw123456'' None)) (toLowerCase '' a@x.com'')
       = Some \<lparr>otp = ''123456'',
               userData = Some \<lparr>ud_email = ''a@x.com'',
                                ud_password = Some (bhash ''pw123456'' ''s1''),
                                ud_name = Some '' a'', ud_googleId = None\<rparr>,
               expiryTime = 600000, attempts = 0, verified = False\<rparr>
   \<and> verifySignupOTP_ctrl bhash 1 ''s2'' (snd (requestSignupOTP bhash 0 ''s1'' 23456 True
      \<lparr>users = [], otpStore = Map.empty, signupOtpStore = Map.empty\<rparr>
      '' a@x.com'' ''pw123456'' None)) '' a@x.com'' ''123456''
       = (json 400 False ''No OTP found. Please request a new one.'', (snd (requestSignupOTP bhash 0 ''s1'' 23456 True
      \<lparr>users = [], otpStore = Map.empty, signupOtpStore = Map.empty\<rparr>
      '' a@x.com'' ''pw123456'' None)))
   \<and> otpStore (snd (forgotPassword 0 23456 True
      \<lparr>users = [\<lparr>u_id = 1, u_email = ''a@x.com'', u_password = Some ''old'', u_name = ''a'',
        u_google_id = None\<rparr>],
       otpStore = Map.empty, signupOtpStore = Map.empty\<rparr>
      '' a@x.com'')) (toLowerCase '' a@x.com'')
       = Some \<lparr>otp = ''123456'', userData = None, expiryTime = 600000, attempts = 0,
               verified = False\<rparr>
   \<and> verifyOTP_ctrl 1 (snd (forgotPassword 0 23456 True
      \<lparr>users = [\<lparr>u_id = 1, u_email = ''a@x.com'', u_password = Some ''old'', u_name = ''a'',
        u_google_id = None\<rparr>],
       otpStore = Map.empty, signupOtpStore = Map.empty\<rparr>
      '' a@x.com'')) '' a@x.com'' ''123456''
       = (json 400 False ''No OTP found. Please request a new one.'', (snd (forgotPassword 0 23456 True
      \<lparr>users = [\<lparr>u_id = 1, u_email = ''a@x.com'', u_password = Some ''old'', u_name = ''a'',
        u_google_id = None\<rparr>],
       otpStore = Map.empty, signupOtpStore = Map.empty\<rparr>
      '' a@x.com'')))
   \<and> verifyOTP 1 (storeOTP 0 Map.empty '' a@x.com'' ''123456'' 10) ''a@x.com'' ''123456''
       = (OtpResult False ''No OTP found. Please request a new one.'' None,
          storeOTP 0 Map.empty '' a@x.com'' ''123456'' 10)
   \<and> clearOTP (storeOTP 0 Map.empty '' a@x.com'' ''123456'' 10) ''a@x.com''
         (toLowerCase '' a@x.com'')
       = Some \<lparr>otp = ''123456'', userData = None, expiryTime = 600000, attempts = 0,
               verified = False\<rparr>"
proof -
  have k: "toLowerCase '' a@x.com'' = '' a@x.com''" "toLowerCase ''a@x.com'' = ''a@x.com''"
    "trim '' a@x.com'' = ''a@x.com''" "trim ''a@x.com'' = ''a@x.com''"
    "split_at_0 '' a@x.com'' = '' a''" "generateOTP 23456 = ''123456''"
    by (simp_all add: toLowerCase_def lower_char_def trim_def is_ws_def split_at_0_def
        generateOTP_def show_nat.simps digit_char_def)
  show ?thesis
    by (simp add: requestSignupOTP_def forgotPassword_def verifySignupOTP_ctrl_def
        verifyOTP_ctrl_def verifySignupOTP_def verifyOTP_def storeSignupOTP_def storeOTP_def
        clearOTP_def findByEmail_def single_def json_def Let_def k)
qed

text \<open>
  The gate of \<open>resetPassword\<close>, stated on the ledger: a request that carries an email and a
  new password is answered with 403 exactly when the reset ledger has no record under the
  canonical email that is verified and not expired.
\<close>

lemma resetPassword_gate:
  assumes "email \<noteq> []" and "newPassword \<noteq> []"
  shows "(status (fst (resetPassword bhash now salt s email newPassword)) = 403)
           = (\<forall>r. otpStore s (trim (toLowerCase email)) = Some r
                  \<longrightarrow> \<not> verified r \<or> expiryTime r < now)"
    and "(\<forall>r. otpStore s (trim (toLowerCase email)) = Some r \<longrightarrow> \<not> verified r \<or> expiryTime r < now)
           \<Longrightarrow> resetPassword bhash now salt s email newPassword
                 = (json 403 False ''Please verify OTP before resetting password'', s)"
  using assms
  by (auto simp add: resetPassword_def isOTPVerified_def canonical_lower json_def
      split: option.splits sum.splits)

text \<open>
  Claim C5 says that after one successful verify-otp exactly one \<open>resetPassword\<close> succeeds,
  clearing the record, so that a repeated \<open>resetPassword\<close> for the same email fails with
  403. The handler tests the gate under the canonical email but clears the record under
  the lower-cased email as sent. After a reset OTP is requested and verified for
  \<open>a@x.com\<close>, a \<open>resetPassword\<close> that sends the address with a leading space succeeds and
  leaves the verified record in place, and the same request with another password succeeds
  again and replaces the password once more, for every hash function. With the address
  sent without the space, the second request is answered with 403.
  The padding is the ASCII space, which \<open>trim\<close> strips in the code as in the model.
\<close>

theorem resetPassword_padded_email_resets_twice:
  "fst (verifyOTP_ctrl 1
     (snd (forgotPassword 0 23456 True
      \<lparr>users = [\<lparr>u_id = 1, u_email = ''a@x.com'', u_password = Some ''old'', u_name = ''a'',
        u_google_id = None\<rparr>],
       otpStore = Map.empty, signupOtpStore = Map.empty\<rparr>
      ''a@x.com''))
     ''a@x.com'' ''123456'') = json 200 True ''OTP verified successfully''
   \<and> fst (resetPassword bhash 2 ''s1''
     (snd (verifyOTP_ctrl 1
     (snd (forgotPassword 0 23456 True
      \<lparr>users = [\<lparr>u_id = 1, u_email = ''a@x.com'', u_password = Some ''old'', u_name = ''a'',
        u_google_id = None\<rparr>],
       otpStore = Map.empty, signupOtpStore = Map.empty\<rparr>
      ''a@x.com''))
     ''a@x.com'' ''123456''))
     '' a@x.com'' ''newpw1'') = json 200 True ''Password has been reset successfully. You can now login with your new password.''
   \<and> otpStore (snd (resetPassword bhash 2 ''s1''
     (snd (verifyOTP_ctrl 1
     (snd (forgotPassword 0 23456 True
      \<lparr>users = [\<lparr>u_id = 1, u_email = ''a@x.com'', u_password = Some ''old'', u_name = ''a'',
        u_google_id = None\<rparr>],
       otpStore = Map.empty, signupOtpStore = Map.empty\<rparr>
      ''a@x.com''))
     ''a@x.com'' ''123456''))
     '' a@x.com'' ''newpw1'')) (trim (toLowerCase '' a@x.com''))
       = Some \<lparr>otp = ''123456'', userData = None, expiryTime = 600000, attempts = 0,
               verified = True\<rparr>
   \<and> isOTPVerified 3 (otpStore (snd (resetPassword bhash 2 ''s1''
     (snd (verifyOTP_ctrl 1
     (snd (forgotPassword 0 23456 True
      \<lparr>users = [\<lparr>u_id = 1, u_email = ''a@x.com'', u_password = Some ''old'', u_name = ''a'',
        u_google_id = None\<rparr>],
       otpStore = Map.empty, signupOtpStore = Map.empty\<rparr>
      ''a@x.com''))
     ''a@x.com'' ''123456''))
     '' a@x.com'' ''newpw1''))) (trim (toLowerCase '' a@x.com''))
   \<and> fst (resetPassword bhash 3 ''s2''
     (snd (resetPassword bhash 2 ''s1''
     (snd (verifyOTP_ctrl 1
     (snd (forgotPassword 0 23456 True
      \<lparr>users = [\<lparr>u_id = 1, u_email = ''a@x.com'', u_password = Some ''old'', u_name = ''a'',
        u_google_id = None\<rparr>],
       otpStore = Map.empty, signupOtpStore = Map.empty\<rparr>
      ''a@x.com''))
     ''a@x.com'' ''123456''))
     '' a@x.com'' ''newpw1''))
     '' a@x.com'' ''newpw2'') = json 200 True ''Password has been reset successfully. You can now login with your new password.''
   \<and> users (snd (resetPassword bhash 3 ''s2''
     (snd (resetPassword bhash 2 ''s1''
     (snd (verifyOTP_ctrl 1
     (snd (forgotPassword 0 23456 True
      \<lparr>users = [\<lparr>u_id = 1, u_email = ''a@x.com'', u_password = Some ''old'', u_name = ''a'',
        u_google_id = None\<rparr>],
       otpStore = Map.empty, signupOtpStore = Map.empty\<rparr>
      ''a@x.com''))
     ''a@x.com'' ''123456''))
     '' a@x.com'' ''newpw1''))
     '' a@x.com'' ''newpw2''))
       = [\<lparr>u_id = 1, u_email = ''a@x.com'', u_password = Some (bhash ''newpw2'' ''s2''),
           u_name = ''a'', u_google_id = None\<rparr>]
   \<and> fst (resetPassword bhash 2 ''s1''
     (snd (verifyOTP_ctrl 1
     (snd (forgotPassword 0 23456 True
      \<lparr>users = [\<lparr>u_id = 1, u_email = ''a@x.com'', u_password = Some ''old'', u_name = ''a'',
        u_google_id = None\<rparr>],
       otpStore = Map.empty, signupOtpStore = Map.empty\<rparr>
      ''a@x.com''))
     ''a@x.com'' ''123456''))
     ''a@x.com'' ''newpw1'') = json 200 True ''Password has been reset successfully. You can now login with your new password.''
   \<and> otpStore (snd (resetPassword bhash 2 ''s1''
     (snd (verifyOTP_ctrl 1
     (snd (forgotPassword 0 23456 True
      \<lparr>users = [\<lparr>u_id = 1, u_email = ''a@x.com'', u_password = Some ''old'', u_name = ''a'',
        u_google_id = None\<rparr>],
       otpStore = Map.empty, signupOtpStore = Map.empty\<rparr>
      ''a@x.com''))
     ''a@x.com'' ''123456''))
     ''a@x.com'' ''newpw1'')) (trim (toLowerCase ''a@x.com'')) = None
   \<and> fst (resetPassword bhash 3 ''s2''
     (snd (resetPassword bhash 2 ''s1''
     (snd (verifyOTP_ctrl 1
     (snd (forgotPassword 0 23456 True
      \<lparr>users = [\<lparr>u_id = 1, u_email = ''a@x.com'', u_password = Some ''old'', u_name = ''a'',
        u_google_id = None\<rparr>],
       otpStore = Map.empty, signupOtpStore = Map.empty\<rparr>
      ''a@x.com''))
     ''a@x.com'' ''123456''))
     ''a@x.com'' ''newpw1''))
     ''a@x.com'' ''newpw2'') = json 403 False ''Please verify OTP before resetting password''"
proof -
  have k: "toLowerCase '' a@x.com'' = '' a@x.com''" "toLowerCase ''a@x.com'' = ''a@x.com''"
    "trim '' a@x.com'' = ''a@x.com''" "trim ''a@x.com'' = ''a@x.com''"
    "generateOTP 23456 = ''123456''"
    by (simp_all add: toLowerCase_def lower_char_def trim_def is_ws_def
        generateOTP_def show_nat.simps digit_char_def)
  show ?thesis
    by (simp add: forgotPassword_def verifyOTP_ctrl_def resetPassword_def verifyOTP_def
        storeOTP_def isOTPVerified_def clearOTP_def findByEmail_def single_def
        User_updatePassword_def User_update_def apply_updates_def json_def Let_def k)
qed

text \<open>
  The part of the claim that holds: after a successful verify-otp for the email of a
  registered user, a \<open>resetPassword\<close> before the expiry succeeds and stores a hash of the
  new password on that user; when the lower-cased email as sent is already trimmed, the
  record is cleared and a repeated \<open>resetPassword\<close> for the same email fails with 403.
\<close>

lemma resetPassword_consumes_record:
  assumes "email \<noteq> []" and "newPassword \<noteq> []"
  shows "(success (fst (verifyOTP_ctrl tv s email code))
            \<and> otpStore s (trim (toLowerCase email)) = Some stored \<and> now \<le> expiryTime stored
            \<and> db_ok (users s) \<and> findByEmail (users s) (trim (toLowerCase email)) = Some u \<longrightarrow>
            status (fst (resetPassword bhash now salt (snd (verifyOTP_ctrl tv s email code))
                           email newPassword)) = 200
          \<and> users (snd (resetPassword bhash now salt (snd (verifyOTP_ctrl tv s email code))
                           email newPassword))
              = map (\<lambda>x. if u_id x = u_id u then x\<lparr>u_password := Some (bhash newPassword salt)\<rparr>
                          else x) (users s)
          \<and> (toLowerCase email = trim (toLowerCase email) \<longrightarrow>
                \<not> isOTPVerified now_b
                    (otpStore (snd (resetPassword bhash now salt
                                      (snd (verifyOTP_ctrl tv s email code)) email newPassword)))
                    (trim (toLowerCase email))
              \<and> status (fst (resetPassword bhash now_b salt_b
                     (snd (resetPassword bhash now salt (snd (verifyOTP_ctrl tv s email code))
                             email newPassword))
                     email newPassword)) = 403))"
proof -
  let ?c = "trim (toLowerCase email)"
  have p3: "status (fst (resetPassword bhash now salt (snd (verifyOTP_ctrl tv s email code))
                           email newPassword)) = 200
          \<and> users (snd (resetPassword bhash now salt (snd (verifyOTP_ctrl tv s email code))
                           email newPassword))
              = map (\<lambda>x. if u_id x = u_id u then x\<lparr>u_password := Some (bhash newPassword salt)\<rparr>
                          else x) (users s)
          \<and> (toLowerCase email = ?c \<longrightarrow>
                \<not> isOTPVerified now_b
                    (otpStore (snd (resetPassword bhash now salt
                                      (snd (verifyOTP_ctrl tv s email code)) email newPassword)))
                    ?c
              \<and> status (fst (resetPassword bhash now_b salt_b
                     (snd (resetPassword bhash now salt (snd (verifyOTP_ctrl tv s email code))
                             email newPassword))
                     email newPassword)) = 403)"
    if ok: "success (fst (verifyOTP_ctrl tv s email code))"
      and st: "otpStore s ?c = Some stored" and le: "now \<le> expiryTime stored"
      and db: "db_ok (users s)" and fu: "findByEmail (users s) ?c = Some u"
  proof -
    let ?st = "(otpStore s)(?c \<mapsto> stored\<lparr>verified := True\<rparr>)"
    let ?s1 = "s\<lparr>otpStore := ?st\<rparr>"
    have v: "snd (verifyOTP_ctrl tv s email code) = ?s1"
      using ok st
      by (auto simp add: verifyOTP_ctrl_def verifyOTP_def canonical_lower json_def Let_def
          split: if_splits)
    have iv: "isOTPVerified now ?st ?c"
      using le by (simp add: isOTPVerified_def canonical_lower)
    have "u \<in> set (users s)" using fu by (rule findByEmail_mem)
    moreover have "distinct (map u_id (users s))" using db by (simp add: db_ok_def)
    ultimately have fl: "filter (\<lambda>y. u_id y = u_id u) (users s) = [u]"
      by (rule filter_key_distinct [rotated])
    let ?us = "map (\<lambda>x. if u_id x = u_id u then x\<lparr>u_password := Some (bhash newPassword salt)\<rparr>
                          else x) (users s)"
    have up: "User_updatePassword bhash salt (users s) (u_id u) newPassword
                = Inr (u\<lparr>u_password := Some (bhash newPassword salt)\<rparr>, ?us)"
      using assms(2) fl
      by (simp add: User_updatePassword_def User_update_def apply_updates_def)
    let ?s2 = "?s1\<lparr>users := ?us, otpStore := clearOTP ?st email\<rparr>"
    have r: "resetPassword bhash now salt ?s1 email newPassword
               = (json 200 True
                    ''Password has been reset successfully. You can now login with your new password.'',
                  ?s2)"
      using assms iv fu up by (simp add: resetPassword_def)
    have cl: "\<not> isOTPVerified now_b (clearOTP ?st email) ?c" if "toLowerCase email = ?c"
      using that by (simp add: isOTPVerified_def clearOTP_def toLowerCase_idem)
    have r2: "status (fst (resetPassword bhash now_b salt_b ?s2 email newPassword)) = 403"
      if "toLowerCase email = ?c"
      using assms cl [OF that] by (simp add: resetPassword_def json_def)
    have a: "status (fst (resetPassword bhash now salt (snd (verifyOTP_ctrl tv s email code))
                           email newPassword)) = 200"
      by (simp add: v r json_def)
    have b: "users (snd (resetPassword bhash now salt (snd (verifyOTP_ctrl tv s email code))
                           email newPassword)) = ?us"
      by (simp add: v r)
    have c: "snd (resetPassword bhash now salt (snd (verifyOTP_ctrl tv s email code))
                           email newPassword) = ?s2"
      by (simp only: v r snd_conv)
    have d: "otpStore ?s2 = clearOTP ?st email"
      by simp
    show ?thesis
    proof (intro conjI impI)
      show "status (fst (resetPassword bhash now salt (snd (verifyOTP_ctrl tv s email code))
                           email newPassword)) = 200"
        by (rule a)
      show "users (snd (resetPassword bhash now salt (snd (verifyOTP_ctrl tv s email code))
                           email newPassword)) = ?us"
        by (rule b)
    next
      assume e: "toLowerCase email = ?c"
      show "\<not> isOTPVerified now_b
                    (otpStore (snd (resetPassword bhash now salt
                                      (snd (verifyOTP_ctrl tv s email code)) email newPassword)))
                    ?c"
        unfolding c d by (rule cl [OF e])
    next
      assume e: "toLowerCase email = ?c"
      show "status (fst (resetPassword bhash now_b salt_b
                     (snd (resetPassword bhash now salt (snd (verifyOTP_ctrl tv s email code))
                             email newPassword))
                     email newPassword)) = 403"
        unfolding c by (rule r2 [OF e])
    qed
  qed
  show ?thesis
    using p3 by blast
qed

section \<open>Federated login\<close>

lemma google_verify_again:
  assumes db: "db_ok us" and mem: "u \<in> set us" and em: "p_emails prof = email # rest"
    and k: "u_google_id u = Some (p_id prof)
            \<or> (findByGoogleId us (p_id prof) = None \<and> u_email u = trim (toLowerCase email))"
  shows "\<exists>u2 us2. google_verify bhash salt us prof = Inr (Some u2, us2)
           \<and> u_id u2 = u_id u \<and> map u_id us2 = map u_id us
           \<and> (u_google_id u = Some (p_id prof) \<longrightarrow> u2 = u \<and> us2 = us)"
proof (cases "u_google_id u = Some (p_id prof)")
  case True
  then have "findByGoogleId us (p_id prof) = Some u"
    using db mem by (intro findByGoogleId_found)
  then have "google_verify bhash salt us prof = Inr (Some u, us)"
    by (simp add: google_verify_def)
  then show ?thesis by simp
next
  case False
  then have n: "findByGoogleId us (p_id prof) = None"
    and e: "u_email u = trim (toLowerCase email)"
    using k by auto
  let ?l = "map (\<lambda>x. if u_id x = u_id u then x\<lparr>u_google_id := Some (p_id prof)\<rparr> else x) us"
  have fe: "findByEmail us email = Some u"
    using db mem e by (rule findByEmail_found)
  have a: "Some (p_id prof) \<notin> set (map u_google_id us)"
    using db n by (rule findByGoogleId_absent)
  have up: "User_update bhash salt us (u_id u) \<lparr>up_password = None, up_google_id = Some (p_id prof)\<rparr>
              = Inr (u\<lparr>u_google_id := Some (p_id prof)\<rparr>, ?l)"
    using db mem a by (rule User_update_link)
  have fi: "findById ?l (u_id u) = Some (u\<lparr>u_google_id := Some (p_id prof)\<rparr>)"
    using db mem by (rule findById_link)
  have "google_verify bhash salt us prof = Inr (Some (u\<lparr>u_google_id := Some (p_id prof)\<rparr>), ?l)"
    by (simp add: google_verify_def n em fe up fi)
  then show ?thesis
    using False by (simp add: link_ids)
qed

text \<open>
  Claim C7. On a users table that satisfies the store's constraints, and for a profile that
  carries an email, the federated login resolves a user: the one with the profile's
  federated id when there is one (the table is unchanged); otherwise the one with the
  profile's email, on whose row the federated id is set (no row is added, and the row keeps
  its key, email and password); and only when both lookups fail a new row without a
  password. A second login with the same profile afterwards yields the same user id and
  adds no row; for a non-empty federated id it returns the same user and leaves the table
  as it is.
\<close>

theorem federated_login_links_before_creating:
  assumes db: "db_ok us" and em: "p_emails prof = email # rest"
  shows "\<exists>u us'. google_verify bhash salt us prof = Inr (Some u, us')
           \<and> (case findByGoogleId us (p_id prof) of
                 Some u0 \<Rightarrow> u = u0 \<and> us' = us
               | None \<Rightarrow>
                   (case findByEmail us email of
                      Some u1 \<Rightarrow>
                        u = u1\<lparr>u_google_id := Some (p_id prof)\<rparr>
                        \<and> us' = map (\<lambda>x. if u_id x = u_id u1
                                          then x\<lparr>u_google_id := Some (p_id prof)\<rparr> else x) us
                    | None \<Rightarrow>
                        us' = us @ [u] \<and> u_id u \<notin> set (map u_id us)
                        \<and> u_email u = trim (toLowerCase email) \<and> u_password u = None
                        \<and> u_google_id u = (if p_id prof = [] then None else Some (p_id prof))))
           \<and> db_ok us'
           \<and> (\<exists>u2 us2. google_verify bhash salt_b us' prof = Inr (Some u2, us2)
                  \<and> u_id u2 = u_id u \<and> map u_id us2 = map u_id us'
                  \<and> (p_id prof \<noteq> [] \<longrightarrow> u2 = u \<and> us2 = us'))"
proof (cases "findByGoogleId us (p_id prof)")
  case (Some u0)
  then have m: "u0 \<in> set us" and g: "u_google_id u0 = Some (p_id prof)"
    by (auto dest: findByGoogleId_mem)
  have r: "google_verify bhash salt us prof = Inr (Some u0, us)"
    using Some by (simp add: google_verify_def)
  have "\<exists>u2 us2. google_verify bhash salt_b us prof = Inr (Some u2, us2)
           \<and> u_id u2 = u_id u0 \<and> map u_id us2 = map u_id us
           \<and> (u_google_id u0 = Some (p_id prof) \<longrightarrow> u2 = u0 \<and> us2 = us)"
    using db m em g by (intro google_verify_again) simp_all
  then show ?thesis
    using r Some db g by auto
next
  case None
  have a: "Some (p_id prof) \<notin> set (map u_google_id us)"
    using db None by (rule findByGoogleId_absent)
  show ?thesis
  proof (cases "findByEmail us email")
    case (Some u1)
    let ?u = "u1\<lparr>u_google_id := Some (p_id prof)\<rparr>"
    let ?l = "map (\<lambda>x. if u_id x = u_id u1 then x\<lparr>u_google_id := Some (p_id prof)\<rparr> else x) us"
    have m: "u1 \<in> set us" using Some by (rule findByEmail_mem)
    have up: "User_update bhash salt us (u_id u1)
                \<lparr>up_password = None, up_google_id = Some (p_id prof)\<rparr> = Inr (?u, ?l)"
      using db m a by (rule User_update_link)
    have fi: "findById ?l (u_id u1) = Some ?u"
      using db m by (rule findById_link)
    have r: "google_verify bhash salt us prof = Inr (Some ?u, ?l)"
      by (simp add: google_verify_def None em Some up fi)
    have db': "db_ok ?l" using db a by (rule db_ok_link)
    have m': "?u \<in> set ?l" using m by force
    have "\<exists>u2 us2. google_verify bhash salt_b ?l prof = Inr (Some u2, us2)
           \<and> u_id u2 = u_id ?u \<and> map u_id us2 = map u_id ?l
           \<and> (u_google_id ?u = Some (p_id prof) \<longrightarrow> u2 = ?u \<and> us2 = ?l)"
      using db' m' em by (intro google_verify_again) simp_all
    then have again: "\<exists>u2 us2. google_verify bhash salt_b ?l prof = Inr (Some u2, us2)
           \<and> u_id u2 = u_id ?u \<and> map u_id us2 = map u_id ?l
           \<and> (p_id prof \<noteq> [] \<longrightarrow> u2 = ?u \<and> us2 = ?l)"
      by auto
    show ?thesis
      using r db' again by (simp only: None Some option.case) blast
  next
    case N: None
    let ?c = "trim (toLowerCase email)"
    let ?g = "if p_id prof = [] then None else Some (p_id prof)"
    let ?u = "\<lparr>u_id = fresh_id us, u_email = ?c, u_password = None,
               u_name = (case p_displayName prof of
                           None \<Rightarrow> split_at_0 email
                         | Some n \<Rightarrow> if trim n = [] then split_at_0 email else trim n),
               u_google_id = ?g\<rparr>"
    have ce: "?c \<notin> set (map u_email us)"
      using db N by (rule findByEmail_absent)
    have cg: "?g = None \<or> ?g \<notin> set (map u_google_id us)"
      using a by simp
    have cr: "User_create bhash salt us
                \<lparr>ud_email = email, ud_password = None, ud_name = p_displayName prof,
                 ud_googleId = Some (p_id prof)\<rparr> = Inr (?u, us @ [?u])"
      using ce cg by (auto simp add: User_create_def db_insert_def Let_def split: option.splits)
    have r: "google_verify bhash salt us prof = Inr (Some ?u, us @ [?u])"
      by (simp add: google_verify_def None em N cr)
    have fr: "u_id ?u \<notin> set (map u_id us)"
      using fresh_id_fresh [of us] by simp
    have db': "db_ok (us @ [?u])"
      using db fr ce cg by (intro db_ok_insert) auto
    have k: "u_google_id ?u = Some (p_id prof)
             \<or> (findByGoogleId (us @ [?u]) (p_id prof) = None \<and> u_email ?u = ?c)"
    proof (cases "p_id prof = []")
      case True
      have "filter (\<lambda>x. u_google_id x = Some (p_id prof)) us = []"
        using a by (rule filter_absent)
      then have "findByGoogleId (us @ [?u]) (p_id prof) = None"
        using True by (simp add: findByGoogleId_def single_def)
      then show ?thesis by simp
    next
      case False
      then show ?thesis by simp
    qed
    have mu: "?u \<in> set (us @ [?u])" by simp
    have "\<exists>u2 us2. google_verify bhash salt_b (us @ [?u]) prof = Inr (Some u2, us2)
           \<and> u_id u2 = u_id ?u \<and> map u_id us2 = map u_id (us @ [?u])
           \<and> (u_google_id ?u = Some (p_id prof) \<longrightarrow> u2 = ?u \<and> us2 = us @ [?u])"
      by (rule google_verify_again [OF db' mu em k])
    then have again: "\<exists>u2 us2. google_verify bhash salt_b (us @ [?u]) prof = Inr (Some u2, us2)
           \<and> u_id u2 = u_id ?u \<and> map u_id us2 = map u_id (us @ [?u])
           \<and> (p_id prof \<noteq> [] \<longrightarrow> u2 = ?u \<and> us2 = us @ [?u])"
      by auto
    have props: "u_id ?u \<notin> set (map u_id us) \<and> u_email ?u = ?c \<and> u_password ?u = None
                 \<and> u_google_id ?u = ?g"
      using fr by simp
    show ?thesis
      using r db' again props by (simp only: None N option.case) blast
  qed
qed

theorem federated_login_links_before_creating_witness:
  "db_ok [\<lparr>u_id = 1, u_email = ''a@x.com'', u_password = Some ''s0pw'', u_name = ''a'',
        u_google_id = None\<rparr>]
   \<and> p_emails \<lparr>p_id = ''g-1'', p_emails = [''A@x.com''], p_displayName = Some ''Ann''\<rparr> = [''A@x.com'']
   \<and> p_id \<lparr>p_id = ''g-1'', p_emails = [''A@x.com''], p_displayName = Some ''Ann''\<rparr> \<noteq> []
   \<and> findByGoogleId [\<lparr>u_id = 1, u_email = ''a@x.com'', u_password = Some ''s0pw'', u_name = ''a'',
        u_google_id = None\<rparr>] (p_id \<lparr>p_id = ''g-1'', p_emails = [''A@x.com''], p_displayName = Some ''Ann''\<rparr>) = None
   \<and> findByEmail [\<lparr>u_id = 1, u_email = ''a@x.com'', u_password = Some ''s0pw'', u_name = ''a'',
        u_google_id = None\<rparr>] ''A@x.com''
       = Some \<lparr>u_id = 1, u_email = ''a@x.com'', u_password = Some ''s0pw'', u_name = ''a'',
        u_google_id = None\<rparr>
   \<and> google_verify (\<lambda>p s. s @ p) ''s1'' [\<lparr>u_id = 1, u_email = ''a@x.com'', u_password = Some ''s0pw'', u_name = ''a'',
        u_google_id = None\<rparr>] \<lparr>p_id = ''g-1'', p_emails = [''A@x.com''], p_displayName = Some ''Ann''\<rparr>
       = Inr (Some \<lparr>u_id = 1, u_email = ''a@x.com'', u_password = Some ''s0pw'', u_name = ''a'',
        u_google_id = Some ''g-1''\<rparr>, [\<lparr>u_id = 1, u_email = ''a@x.com'', u_password = Some ''s0pw'', u_name = ''a'',
        u_google_id = Some ''g-1''\<rparr>])
   \<and> google_verify (\<lambda>p s. s @ p) ''s2'' [\<lparr>u_id = 1, u_email = ''a@x.com'', u_password = Some ''s0pw'', u_name = ''a'',
        u_google_id = Some ''g-1''\<rparr>] \<lparr>p_id = ''g-1'', p_emails = [''A@x.com''], p_displayName = Some ''Ann''\<rparr>
       = Inr (Some \<lparr>u_id = 1, u_email = ''a@x.com'', u_password = Some ''s0pw'', u_name = ''a'',
        u_google_id = Some ''g-1''\<rparr>, [\<lparr>u_id = 1, u_email = ''a@x.com'', u_password = Some ''s0pw'', u_name = ''a'',
        u_google_id = Some ''g-1''\<rparr>])"
proof -
  let ?u = "\<lparr>u_id = 1, u_email = ''a@x.com'', u_password = Some ''s0pw'', u_name = ''a'',
        u_google_id = None\<rparr>"
  let ?u' = "\<lparr>u_id = 1, u_email = ''a@x.com'', u_password = Some ''s0pw'', u_name = ''a'',
        u_google_id = Some ''g-1''\<rparr>"
  let ?p = "\<lparr>p_id = ''g-1'', p_emails = [''A@x.com''], p_displayName = Some ''Ann''\<rparr>"
  have h1: "db_ok [?u]" by code_simp
  have h2: "p_emails ?p = [''A@x.com'']" by simp
  have h3: "p_id ?p \<noteq> []" by simp
  have f1: "findByGoogleId [?u] (p_id ?p) = None" by code_simp
  have f2: "findByEmail [?u] ''A@x.com'' = Some ?u" by code_simp
  from federated_login_links_before_creating [OF h1 h2, of "\<lambda>p s. s @ p" "''s1''" "''s2''"]
  obtain u us' where r: "google_verify (\<lambda>p s. s @ p) ''s1'' [?u] ?p = Inr (Some u, us')"
    and c: "case findByGoogleId [?u] (p_id ?p) of
                 Some u0 \<Rightarrow> u = u0 \<and> us' = [?u]
               | None \<Rightarrow>
                   (case findByEmail [?u] ''A@x.com'' of
                      Some u1 \<Rightarrow>
                        u = u1\<lparr>u_google_id := Some (p_id ?p)\<rparr>
                        \<and> us' = map (\<lambda>x. if u_id x = u_id u1
                                          then x\<lparr>u_google_id := Some (p_id ?p)\<rparr> else x) [?u]
                    | None \<Rightarrow>
                        us' = [?u] @ [u] \<and> u_id u \<notin> set (map u_id [?u])
                        \<and> u_email u = trim (toLowerCase ''A@x.com'') \<and> u_password u = None
                        \<and> u_google_id u = (if p_id ?p = [] then None else Some (p_id ?p)))"
    and a: "\<exists>u2 us2. google_verify (\<lambda>p s. s @ p) ''s2'' us' ?p = Inr (Some u2, us2)
                  \<and> u_id u2 = u_id u \<and> map u_id us2 = map u_id us'
                  \<and> (p_id ?p \<noteq> [] \<longrightarrow> u2 = u \<and> us2 = us')"
    by blast
  have c': "u = ?u\<lparr>u_google_id := Some (p_id ?p)\<rparr>
            \<and> us' = map (\<lambda>x. if u_id x = u_id ?u
                              then x\<lparr>u_google_id := Some (p_id ?p)\<rparr> else x) [?u]"
    using c by (simp only: f1 f2 option.case)
  have u: "u = ?u'" and us: "us' = [?u']"
    using c' by simp_all
  have a': "google_verify (\<lambda>p s. s @ p) ''s2'' [?u'] ?p = Inr (Some ?u', [?u'])"
    using a h3 unfolding u us by auto
  show ?thesis
    using h1 h2 h3 f1 f2 r a' unfolding u us by blast
qed

end
